theory Spec2Isabelle
  imports Main "HOL-Library.Word"
begin

unbundle bit_operations_syntax

section \<open>FLV parser (flv-parser.c): data model\<close>

text \<open>
  The C program reads an FLV file from the global stream \<open>g_infile\<close> with \<open>fread\<close> and
  decodes script-data payloads in memory through a pair \<open>(uint8_t **data, size_t *len)\<close>.
  The embedding keeps both: a \<open>stream\<close> for the file and a \<open>cursor\<close> for the in-memory
  pair. The \<open>printf\<close> reporting is left out except for the two report lines of the
  audio decoder that carry its decision on the AAC packet type.

  The process can stop in three ways: a failed \<open>assert\<close> (assertions are taken as
  compiled in, the source never defines \<open>NDEBUG\<close>), \<open>die()\<close>, which calls \<open>exit(-1)\<close>,
  and a write through a null pointer, which ends it with a segmentation fault.
  They are the values of \<open>abort\<close>; a function that can stop the process returns
  \<open>abort + 'a\<close>.
\<close>

type_synonym u8 = "8 word"
type_synonym u16 = "16 word"
type_synonym u32 = "32 word"
type_synonym u64 = "64 word"

datatype abort = AssertionFailed | Exit | SegmentationFault

text \<open>\<open>enum scriptdata_value_types\<close>: the enumerators count from 0.\<close>

definition SCRIPTDATA_NUMBER :: u8 where "SCRIPTDATA_NUMBER = 0"
definition SCRIPTDATA_BOOLEAN :: u8 where "SCRIPTDATA_BOOLEAN = 1"
definition SCRIPTDATA_STRING :: u8 where "SCRIPTDATA_STRING = 2"
definition SCRIPTDATA_OBJECT :: u8 where "SCRIPTDATA_OBJECT = 3"
definition SCRIPTDATA_MOVIE_CLIP :: u8 where "SCRIPTDATA_MOVIE_CLIP = 4"
definition SCRIPTDATA_NULL :: u8 where "SCRIPTDATA_NULL = 5"
definition SCRIPTDATA_UNDEFINED :: u8 where "SCRIPTDATA_UNDEFINED = 6"
definition SCRIPTDATA_REFERENCE :: u8 where "SCRIPTDATA_REFERENCE = 7"
definition SCRIPTDATA_ECMA_ARRAY :: u8 where "SCRIPTDATA_ECMA_ARRAY = 8"
definition SCRIPTDATA_OBJECT_END_MARKER :: u8 where "SCRIPTDATA_OBJECT_END_MARKER = 9"
definition SCRIPTDATA_STRICT_ARRAY :: u8 where "SCRIPTDATA_STRICT_ARRAY = 10"
definition SCRIPTDATA_DATE :: u8 where "SCRIPTDATA_DATE = 11"
definition SCRIPTDATA_LONG_STRING :: u8 where "SCRIPTDATA_LONG_STRING = 12"

subsection \<open>The in-memory cursor\<close>

text \<open>
  \<open>data\<close> holds the bytes from the pointer \<open>*data\<close> to the end of the buffer, \<open>len\<close> is
  the counter \<open>*len\<close>. \<open>d += k; l -= k\<close> is \<open>advance k\<close>. Every subtraction from
  \<open>l\<close> in the source is guarded by a comparison, so \<open>size_t\<close> never wraps there.
  The in-place conversion of a length-prefixed string to a C string writes only to bytes
  before the advanced pointer, so it does not show in the cursor.
\<close>

record cursor =
  data :: "u8 list"
  len :: nat

definition cursor_of :: "u8 list \<Rightarrow> cursor" where
  "cursor_of bs = \<lparr>data = bs, len = length bs\<rparr>"

definition advance :: "nat \<Rightarrow> cursor \<Rightarrow> cursor" where
  "advance k c = \<lparr>data = drop k (data c), len = len c - k\<rparr>"

subsection \<open>Script-data primitives\<close>

text \<open>
  \<open>hex2double\<close> assembles the 64-bit pattern of an IEEE-754 double from eight big-endian
  bytes. The model keeps the bit pattern; the \<open>double\<close> 0 that the decoders return on a
  short buffer is the pattern 0.
\<close>

definition hex2double :: "u8 list \<Rightarrow> u64" where
  "hex2double hex =
     (let bin_h = (push_bit 24 (ucast (hex ! 0)) OR push_bit 16 (ucast (hex ! 1))
                   OR push_bit 8 (ucast (hex ! 2)) OR ucast (hex ! 3) :: u32);
          bin_l = (push_bit 24 (ucast (hex ! 4)) OR push_bit 16 (ucast (hex ! 5))
                   OR push_bit 8 (ucast (hex ! 6)) OR ucast (hex ! 7) :: u32)
      in push_bit 32 (ucast bin_h) OR ucast bin_l)"

definition parse_scriptdata_number :: "cursor \<Rightarrow> abort + (u64 \<times> cursor)" where
  "parse_scriptdata_number c =
     (if len c < 1 then Inr (0, c)
      else if data c ! 0 \<noteq> SCRIPTDATA_NUMBER then Inl AssertionFailed
      else let d = advance 1 c in
        if len d < 8 then Inr (0, c)
        else Inr (hex2double (data d), advance 8 d))"

definition parse_scriptdata_boolean :: "cursor \<Rightarrow> abort + (u8 \<times> cursor)" where
  "parse_scriptdata_boolean c =
     (if len c < 1 then Inr (0, c)
      else if data c ! 0 \<noteq> SCRIPTDATA_BOOLEAN then Inl AssertionFailed
      else let d = advance 1 c in
        if len d < 1 then Inr (0, c)
        else Inr (data d ! 0, advance 1 d))"

text \<open>
  A decoded string is the C string the source returns: the bytes of the name up to its
  first NUL byte. \<open>None\<close> is the \<open>NULL\<close> pointer.
\<close>

definition c_string :: "u8 list \<Rightarrow> u8 list" where
  "c_string bs = takeWhile (\<lambda>b. b \<noteq> 0) bs"

definition parse_scriptdata_string_without_type :: "cursor \<Rightarrow> u8 list option \<times> cursor" where
  "parse_scriptdata_string_without_type c =
     (if len c < 2 then (None, c)
      else let length' = (push_bit 8 (ucast (data c ! 0)) + ucast (data c ! 1) :: u16);
               d = advance 2 c in
        if len d < unat length' then (None, c)
        else (Some (c_string (take (unat length') (data d))), advance (unat length') d))"

text \<open>
  \<open>parse_scriptdata_string\<close> stores the pointer past the type byte before it calls the
  untyped decoder, so the type byte stays consumed when that call fails.
\<close>

definition parse_scriptdata_string :: "cursor \<Rightarrow> abort + (u8 list option \<times> cursor)" where
  "parse_scriptdata_string c =
     (if len c < 1 then Inr (None, c)
      else if data c ! 0 \<noteq> SCRIPTDATA_STRING then Inl AssertionFailed
      else Inr (parse_scriptdata_string_without_type (advance 1 c)))"

text \<open>The result is \<open>None\<close> for \<open>NULL\<close>, else the type byte, the item count and the cursor.\<close>

definition parse_scriptdata_ECMA_array_raw :: "cursor \<Rightarrow> abort + ((u8 \<times> u32) option \<times> cursor)" where
  "parse_scriptdata_ECMA_array_raw c =
     (if len c < 1 then Inr (None, c)
      else if data c ! 0 \<noteq> SCRIPTDATA_ECMA_ARRAY then Inl AssertionFailed
      else let d = advance 1 c in
        if len d < 4 then Inr (None, c)
        else let length' = (push_bit 24 (ucast (data d ! 0)) + push_bit 16 (ucast (data d ! 1))
                            + push_bit 8 (ucast (data d ! 2)) + ucast (data d ! 3) :: u32)
          in Inr (Some (data c ! 0, length'), advance 4 d))"

text \<open>The item loop of the strict array: the results of the item decoder are dropped.\<close>

primrec strict_array_items :: "nat \<Rightarrow> cursor \<Rightarrow> abort + cursor" where
  "strict_array_items 0 c = Inr c"
| "strict_array_items (Suc n) c =
     (case parse_scriptdata_number c of
        Inl e \<Rightarrow> Inl e
      | Inr (num, c') \<Rightarrow> strict_array_items n c')"

definition parse_scriptdata_strict_array :: "cursor \<Rightarrow> abort + (u32 \<times> cursor)" where
  "parse_scriptdata_strict_array c =
     (if len c < 1 then Inr (0, c)
      else if data c ! 0 \<noteq> SCRIPTDATA_STRICT_ARRAY then Inl AssertionFailed
      else let d = advance 1 c in
        if len d < 4 then Inr (0, c)
        else let length' = (push_bit 24 (ucast (data d ! 0)) + push_bit 16 (ucast (data d ! 1))
                            + push_bit 8 (ucast (data d ! 2)) + ucast (data d ! 3) :: u32)
          in (case strict_array_items (unat length') (advance 4 d) of
                Inl e \<Rightarrow> Inl e
              | Inr d' \<Rightarrow> Inr (length', d')))"

text \<open>The UTC offset is read and dropped (\<open>(void)offset_min\<close>).\<close>

definition parse_scriptdata_date :: "cursor \<Rightarrow> abort + (u64 \<times> cursor)" where
  "parse_scriptdata_date c =
     (if len c < 1 then Inr (0, c)
      else if data c ! 0 \<noteq> SCRIPTDATA_DATE then Inl AssertionFailed
      else let d = advance 1 c in
        if len d < 8 then Inr (0, c)
        else let date_time_ms = hex2double (data d); d2 = advance 8 d in
          if len d2 < 2 then Inr (0, c)
          else Inr (date_time_ms, advance 2 d2))"

section \<open>The file stream\<close>

text \<open>
  \<open>g_infile\<close> is a forward-only stream: \<open>pending\<close> holds the bytes not read yet,
  \<open>eof\<close> is the end-of-file indicator that \<open>feof\<close> tests. \<open>fread size nmemb\<close> returns
  the number of complete items, the bytes it stored and the stream it leaves. A request
  that the pending bytes cover is served without touching the indicator; a larger one
  takes every pending byte, stores them, and sets the indicator. The bytes of an item
  read in part are stored as the usual implementations do; C leaves them indeterminate,
  and no property below rests on them.
\<close>

record stream =
  pending :: "u8 list"
  eof :: bool

definition open_stream :: "u8 list \<Rightarrow> stream" where
  "open_stream bs = \<lparr>pending = bs, eof = False\<rparr>"

definition fread :: "nat \<Rightarrow> nat \<Rightarrow> stream \<Rightarrow> nat \<times> u8 list \<times> stream" where
  "fread size' nmemb s =
     (if size' * nmemb \<le> length (pending s)
      then (nmemb, take (size' * nmemb) (pending s),
            s\<lparr>pending := drop (size' * nmemb) (pending s)\<rparr>)
      else (length (pending s) div size', pending s, \<lparr>pending = [], eof = True\<rparr>))"

text \<open>
  \<open>stored buf got\<close> is the content of a buffer that held \<open>buf\<close> after \<open>fread\<close> wrote
  the bytes \<open>got\<close> to its start.
\<close>

definition stored :: "u8 list \<Rightarrow> u8 list \<Rightarrow> u8 list" where
  "stored buf got = got @ drop (length got) buf"

text \<open>
  \<open>fread_1\<close> reads into \<open>*ptr\<close>; its first argument is what \<open>*ptr\<close> held before the
  call, which stays there when nothing is read. The results are the returned byte count,
  the value of \<open>*ptr\<close> afterwards and the stream.
\<close>

definition fread_1 :: "u8 \<Rightarrow> stream \<Rightarrow> nat \<times> u8 \<times> stream" where
  "fread_1 old s =
     (case fread 1 1 s of
        (count, got, s') \<Rightarrow> (count, stored [old] got ! 0, s'))"

definition fread_3 :: "stream \<Rightarrow> nat \<times> u32 \<times> stream" where
  "fread_3 s =
     (case fread 3 1 s of
        (count, got, s') \<Rightarrow>
          (let bytes = stored [0, 0, 0] got
           in (count * 3,
               push_bit 16 (ucast (bytes ! 0)) OR push_bit 8 (ucast (bytes ! 1))
                 OR ucast (bytes ! 2),
               s')))"

definition fread_4 :: "stream \<Rightarrow> nat \<times> u32 \<times> stream" where
  "fread_4 s =
     (case fread 4 1 s of
        (count, got, s') \<Rightarrow>
          (let bytes = stored [0, 0, 0, 0] got
           in (count * 4,
               push_bit 24 (ucast (bytes ! 0)) OR push_bit 16 (ucast (bytes ! 1))
                 OR push_bit 8 (ucast (bytes ! 2)) OR ucast (bytes ! 3),
               s')))"

text \<open>Subtraction of \<open>size_t\<close> values (64 bits): it wraps around below zero.\<close>

definition size_sub :: "nat \<Rightarrow> nat \<Rightarrow> nat" where
  "size_sub a b = (a + 2 ^ 64 - b mod 2 ^ 64) mod 2 ^ 64"

text \<open>
  The payload decoders end with \<open>data = malloc(n); count = fread(data, 1, n, g_infile)\<close>
  and never test what \<open>malloc\<close> returned. The sizes that occur are below \<open>2 ^ 32\<close>, which
  \<open>malloc\<close> is taken to grant, or wrapped around to the top of \<open>size_t\<close>, which it
  refuses: it returns \<open>NULL\<close>. Then \<open>fread\<close> gets a null buffer, which C leaves undefined.
  What the GNU library does is modelled: pending bytes are copied through the null pointer,
  a segmentation fault; with nothing pending the read fails, which sets the error
  indicator of the stream (the program never tests it, so \<open>stream\<close> has none) and leaves
  the end-of-file indicator as it was.
\<close>

definition malloc_fails :: "nat \<Rightarrow> bool" where
  "malloc_fails n = (2 ^ 63 \<le> n)"

definition fread_malloc :: "nat \<Rightarrow> stream \<Rightarrow> abort + (nat \<times> u8 list \<times> stream)" where
  "fread_malloc n s =
     (if malloc_fails n
      then (if pending s = [] then Inr (0, [], s) else Inl SegmentationFault)
      else Inr (fread 1 n s))"

section \<open>Tags\<close>

text \<open>
  The structs of \<open>flv-parser.h\<close>, with the fields the parser writes. A \<open>data\<close> pointer
  is the value it points to. In \<open>tag_body\<close>, \<open>None\<close> is the \<open>NULL\<close> a payload decoder
  returns for an empty payload; in the fields \<open>video_data\<close> and \<open>tag_data\<close>, \<open>None\<close>
  is the pointer not assigned yet, which is how the payload decoders receive the struct.

  The script-data tag owns the buffer its payload is read into. The string decoder
  rewrites that buffer in place while the payload is decoded (each length-prefixed string
  is moved one byte down and closed with a NUL), and once the decoder has returned the
  buffer is only freed. Its content is therefore no part of the tag here: the tag is the
  bare \<open>Scriptdata_tag\<close>.
\<close>

record audio_tag =
  sound_format :: u8
  sound_rate :: u8
  sound_size :: u8
  sound_type :: u8
  audio_data :: "u8 list"

record avc_video_tag =
  avc_packet_type :: u8
  composition_time :: u32
  nalu_len :: u32
  avc_data :: "u8 list"

datatype video_body = AVC avc_video_tag | Raw "u8 list"

record video_tag =
  frame_type :: u8
  codec_id :: u8
  video_data :: "video_body option"

datatype scriptdata_tag = Scriptdata_tag

datatype tag_body = Audio "audio_tag option" | Video "video_tag option"
  | ScriptData "scriptdata_tag option"

record flv_tag =
  tag_type :: u8
  data_size :: u32
  timestamp :: u32
  timestamp_ext :: u8
  stream_id :: u32
  tag_data :: "tag_body option"

text \<open>
  Modelled from the spec: the tag-type codes and the AVC codec id are macros of
  \<open>flv-parser.h\<close>, which is not among the sources; the spec gives 8 for audio, 9 for
  video, 18 for script data and 7 for AVC.
\<close>

definition TAGTYPE_AUDIODATA :: u8 where "TAGTYPE_AUDIODATA = 8"
definition TAGTYPE_VIDEODATA :: u8 where "TAGTYPE_VIDEODATA = 9"
definition TAGTYPE_SCRIPTDATAOBJECT :: u8 where "TAGTYPE_SCRIPTDATAOBJECT = 18"
definition FLV_CODEC_ID_AVC :: u8 where "FLV_CODEC_ID_AVC = 7"

text \<open>
  \<open>flv_get_bits\<close>: the mask is computed in \<open>int\<close> and cut to a byte, the masked value is
  shifted back down.
\<close>

definition flv_get_bits :: "u8 \<Rightarrow> u8 \<Rightarrow> u8 \<Rightarrow> u8" where
  "flv_get_bits value' start_bit count =
     (let mask = (ucast (push_bit (unat start_bit) (push_bit (unat count) (1 :: u32) - 1)) :: u8)
      in drop_bit (unat start_bit) (mask AND value'))"

subsection \<open>Audio\<close>

text \<open>The two report lines of \<open>read_audio_tag\<close> that depend on the AAC packet type.\<close>

datatype report = AAC_packet_type u8 string | AAC_AudioSpecificConfig "u8 list"

text \<open>
  The local \<open>aac_packet_type\<close> starts as the dummy 255 and is not kept in the tag, so
  the model returns it beside the tag, with the report lines and the stream.
\<close>

definition read_audio_tag :: "flv_tag \<Rightarrow> stream \<Rightarrow> abort + ((audio_tag \<times> u8) option \<times> report list \<times> stream)" where
  "read_audio_tag flv_tag s =
     (if data_size flv_tag = 0 then Inr (None, [], s)
      else
        case fread_1 0 s of (count, byte, s1) \<Rightarrow>
        let format = flv_get_bits byte 4 4;
            rate = flv_get_bits byte 2 2;
            size' = flv_get_bits byte 1 1;
            type' = flv_get_bits byte 0 1
        in
        case (if format = 10
              then (case fread_1 byte s1 of (n, byte', s2) \<Rightarrow>
                      (count + n, byte',
                       [AAC_packet_type byte'
                          (if byte' = 0 then ''AAC sequence header'' else ''AAC raw'')], s2))
              else (count, 255, [], s1))
        of (count', aac_packet_type, out, s2) \<Rightarrow>
        case fread_malloc (size_sub (unat (data_size flv_tag)) count') s2 of
          Inl e \<Rightarrow> Inl e
        | Inr (count'', got, s3) \<Rightarrow>
            Inr (Some (\<lparr>sound_format = format, sound_rate = rate, sound_size = size',
                        sound_type = type', audio_data = got\<rparr>, aac_packet_type),
                 out @ (if aac_packet_type = 0 \<and> count'' > 0
                        then [AAC_AudioSpecificConfig got] else []),
                 s3))"

subsection \<open>Video\<close>

text \<open>
  \<open>read_avc_video_tag\<close> reads the packet type into a field of a fresh \<open>malloc\<close> block;
  \<open>uninit\<close> is the indeterminate byte that field holds when the stream is exhausted.
\<close>

definition read_avc_video_tag :: "u8 \<Rightarrow> video_tag \<Rightarrow> flv_tag \<Rightarrow> u32 \<Rightarrow> stream \<Rightarrow> abort + (avc_video_tag \<times> stream)" where
  "read_avc_video_tag uninit video_tag' flv_tag data_size' s =
     (case fread_1 uninit s of (count, packet_type, s1) \<Rightarrow>
      case (if packet_type = 1
            then (case fread_3 s1 of (n, v, s2) \<Rightarrow> (count + n, v, s2))
            else (count, 0, s1))
      of (count', composition, s2) \<Rightarrow>
        if frame_type video_tag' = 5 then Inl AssertionFailed
        else
          case (if packet_type = 0 then (count', 0, s2)
                else if packet_type = 1
                then (case fread_4 s2 of (n, v, s3) \<Rightarrow> (count' + n, v, s3))
                else (count', 0, s2))
          of (count'', nalu, s3) \<Rightarrow>
          case fread_malloc (size_sub (unat data_size') count'') s3 of
            Inl e \<Rightarrow> Inl e
          | Inr (n, got, s4) \<Rightarrow>
              Inr (\<lparr>avc_packet_type = packet_type, composition_time = composition,
                     nalu_len = nalu, avc_data = got\<rparr>, s4))"

definition read_video_tag :: "u8 \<Rightarrow> flv_tag \<Rightarrow> stream \<Rightarrow> abort + (video_tag option \<times> stream)" where
  "read_video_tag uninit flv_tag s =
     (if data_size flv_tag = 0 then Inr (None, s)
      else
        case fread_1 0 s of (count, byte, s1) \<Rightarrow>
        let frame = flv_get_bits byte 4 4;
            codec = flv_get_bits byte 0 4
        in
        if codec = FLV_CODEC_ID_AVC
        then (case read_avc_video_tag uninit
                     \<lparr>frame_type = frame, codec_id = codec, video_data = None\<rparr> flv_tag
                     (word_of_nat (size_sub (unat (data_size flv_tag)) count)) s1
              of Inl e \<Rightarrow> Inl e
               | Inr (avc, s2) \<Rightarrow>
                   Inr (Some \<lparr>frame_type = frame, codec_id = codec, video_data = Some (AVC avc)\<rparr>, s2))
        else (case fread_malloc (size_sub (unat (data_size flv_tag)) count) s1 of
                Inl e \<Rightarrow> Inl e
              | Inr (n, got, s2) \<Rightarrow>
                  Inr (Some \<lparr>frame_type = frame, codec_id = codec,
                              video_data = Some (Raw got)\<rparr>, s2)))"

section \<open>Script data\<close>

subsection \<open>The object body loop\<close>

text \<open>
  \<open>print_scriptdata_object\<close> is the \<open>while\<close> loop over the properties of an object or
  ECMA-array body, one unfolding per iteration; \<open>break\<close> and \<open>return\<close> both end the
  function, the result is the cursor it leaves to the caller. A nested object is decoded
  by a recursive call, after which the loop goes on from the cursor that call left.
  The measure of the recursion is the counter \<open>len\<close>: the facts below bound the counter
  each decoder leaves, which the termination proof needs for the calls made after a
  decoder has run.
\<close>

function print_scriptdata_object :: "cursor \<Rightarrow> abort + cursor" where
  "print_scriptdata_object c =
     (if len c > 0 then
        (case parse_scriptdata_string_without_type c of
           (None, c1) \<Rightarrow> Inr c1
         | (Some property_name, c1) \<Rightarrow>
             if len c1 < 1 then Inr c1
             else let property_type = data c1 ! 0 in
               if property_name = [] \<and> property_type = SCRIPTDATA_OBJECT_END_MARKER
               then Inr (advance 1 c1)
               else if property_type = SCRIPTDATA_NUMBER then
                 (case parse_scriptdata_number c1 of
                    Inl e \<Rightarrow> Inl e
                  | Inr (num, c2) \<Rightarrow> print_scriptdata_object c2)
               else if property_type = SCRIPTDATA_BOOLEAN then
                 (case parse_scriptdata_boolean c1 of
                    Inl e \<Rightarrow> Inl e
                  | Inr (b, c2) \<Rightarrow> print_scriptdata_object c2)
               else if property_type = SCRIPTDATA_STRING then
                 (case parse_scriptdata_string c1 of
                    Inl e \<Rightarrow> Inl e
                  | Inr (str, c2) \<Rightarrow> print_scriptdata_object c2)
               else if property_type = SCRIPTDATA_OBJECT then
                 (case print_scriptdata_object (advance 1 c1) of
                    Inl e \<Rightarrow> Inl e
                  | Inr c2 \<Rightarrow> print_scriptdata_object c2)
               else if property_type = SCRIPTDATA_STRICT_ARRAY then
                 (case parse_scriptdata_strict_array c1 of
                    Inl e \<Rightarrow> Inl e
                  | Inr (n, c2) \<Rightarrow> print_scriptdata_object c2)
               else if property_type = SCRIPTDATA_DATE then
                 (case parse_scriptdata_date c1 of
                    Inl e \<Rightarrow> Inl e
                  | Inr (date_time_ms, c2) \<Rightarrow> print_scriptdata_object c2)
               else Inr c1)
      else Inr c)"
  by pat_completeness auto

lemmas scriptdata_types =
  SCRIPTDATA_NUMBER_def SCRIPTDATA_BOOLEAN_def SCRIPTDATA_STRING_def SCRIPTDATA_OBJECT_def
  SCRIPTDATA_MOVIE_CLIP_def SCRIPTDATA_NULL_def SCRIPTDATA_UNDEFINED_def
  SCRIPTDATA_REFERENCE_def SCRIPTDATA_ECMA_ARRAY_def SCRIPTDATA_OBJECT_END_MARKER_def
  SCRIPTDATA_STRICT_ARRAY_def SCRIPTDATA_DATE_def SCRIPTDATA_LONG_STRING_def

lemma len_advance: "len (advance k c) = len c - k"
  by (simp add: advance_def)

lemma string_without_type_len:
  "parse_scriptdata_string_without_type c = (r, c') \<Longrightarrow> len c' \<le> len c"
  by (auto simp: parse_scriptdata_string_without_type_def Let_def len_advance split: if_splits)

lemma string_without_type_Some_len:
  "parse_scriptdata_string_without_type c = (Some n, c') \<Longrightarrow> len c' + 2 \<le> len c"
  by (auto simp: parse_scriptdata_string_without_type_def Let_def len_advance split: if_splits)

lemma number_len: "parse_scriptdata_number c = Inr (v, c') \<Longrightarrow> len c' \<le> len c"
  by (auto simp: parse_scriptdata_number_def Let_def len_advance split: if_splits)

lemma boolean_len: "parse_scriptdata_boolean c = Inr (v, c') \<Longrightarrow> len c' \<le> len c"
  by (auto simp: parse_scriptdata_boolean_def Let_def len_advance split: if_splits)

lemma string_len: "parse_scriptdata_string c = Inr (v, c') \<Longrightarrow> len c' \<le> len c"
  by (auto simp: parse_scriptdata_string_def Let_def len_advance split: if_splits dest!: string_without_type_len)

lemma date_len: "parse_scriptdata_date c = Inr (v, c') \<Longrightarrow> len c' \<le> len c"
  by (auto simp: parse_scriptdata_date_def Let_def len_advance split: if_splits)

lemma strict_array_items_len: "strict_array_items n c = Inr c' \<Longrightarrow> len c' \<le> len c"
proof (induction n arbitrary: c)
  case 0
  then show ?case by simp
next
  case (Suc n)
  then show ?case
    by (fastforce split: sum.splits prod.splits dest: number_len)
qed

lemma strict_array_len: "parse_scriptdata_strict_array c = Inr (v, c') \<Longrightarrow> len c' \<le> len c"
  by (auto simp: parse_scriptdata_strict_array_def Let_def len_advance split: if_splits sum.splits dest!: strict_array_items_len)

lemma print_scriptdata_object_len:
  "print_scriptdata_object_dom c \<Longrightarrow> print_scriptdata_object c = Inr c' \<Longrightarrow> len c' \<le> len c"
proof (induction c arbitrary: c' rule: print_scriptdata_object.pinduct)
  case (1 c)
  note unfold = print_scriptdata_object.psimps [OF "1.hyps"]
  show ?case
  proof (cases "0 < len c")
    case False
    with "1.prems" unfold show ?thesis by simp
  next
    case pos: True
    obtain r c1 where name: "parse_scriptdata_string_without_type c = (r, c1)"
      by fastforce
    show ?thesis
    proof (cases r)
      case None
      with "1.prems" unfold pos name have "c' = c1" by simp
      with string_without_type_len [OF name] show ?thesis by simp
    next
      case (Some property_name)
      with name have c1: "len c1 + 2 \<le> len c"
        by (auto dest: string_without_type_Some_len)
      note sym = name [symmetric, unfolded Some]
      show ?thesis
      proof (cases "len c1 < 1")
        case True
        with "1.prems" unfold pos name Some have "c' = c1" by simp
        with c1 show ?thesis by simp
      next
        case avail: False
        let ?t = "data c1 ! 0"
        consider (marker) "property_name = [] \<and> ?t = SCRIPTDATA_OBJECT_END_MARKER"
          | (num) "\<not> (property_name = [] \<and> ?t = SCRIPTDATA_OBJECT_END_MARKER)" "?t = SCRIPTDATA_NUMBER"
          | (bool) "\<not> (property_name = [] \<and> ?t = SCRIPTDATA_OBJECT_END_MARKER)" "?t = SCRIPTDATA_BOOLEAN"
          | (str) "\<not> (property_name = [] \<and> ?t = SCRIPTDATA_OBJECT_END_MARKER)" "?t = SCRIPTDATA_STRING"
          | (obj) "\<not> (property_name = [] \<and> ?t = SCRIPTDATA_OBJECT_END_MARKER)" "?t = SCRIPTDATA_OBJECT"
          | (arr) "\<not> (property_name = [] \<and> ?t = SCRIPTDATA_OBJECT_END_MARKER)" "?t = SCRIPTDATA_STRICT_ARRAY"
          | (date) "\<not> (property_name = [] \<and> ?t = SCRIPTDATA_OBJECT_END_MARKER)" "?t = SCRIPTDATA_DATE"
          | (other) "\<not> (property_name = [] \<and> ?t = SCRIPTDATA_OBJECT_END_MARKER)"
              "?t \<noteq> SCRIPTDATA_NUMBER" "?t \<noteq> SCRIPTDATA_BOOLEAN" "?t \<noteq> SCRIPTDATA_STRING"
              "?t \<noteq> SCRIPTDATA_OBJECT" "?t \<noteq> SCRIPTDATA_STRICT_ARRAY" "?t \<noteq> SCRIPTDATA_DATE"
          by blast
        then show ?thesis
        proof cases
          case marker
          with "1.prems" unfold pos name Some avail have "c' = advance 1 c1" by simp
          with c1 show ?thesis by (simp add: len_advance)
        next
          case num
          with "1.prems" unfold pos name Some avail
          obtain v c2 where p: "parse_scriptdata_number c1 = Inr (v, c2)"
            and r: "print_scriptdata_object c2 = Inr c'"
            by (auto simp: scriptdata_types split: sum.splits)
          from "1.IH"(1) [OF pos sym refl avail refl num(1) num(2) p refl r]
          have "len c' \<le> len c2" .
          with number_len [OF p] c1 show ?thesis by simp
        next
          case bool
          with "1.prems" unfold pos name Some avail
          obtain v c2 where p: "parse_scriptdata_boolean c1 = Inr (v, c2)"
            and r: "print_scriptdata_object c2 = Inr c'"
            by (auto simp: scriptdata_types split: sum.splits)
          from bool have ne: "?t \<noteq> SCRIPTDATA_NUMBER" by (simp add: scriptdata_types)
          from "1.IH"(2) [OF pos sym refl avail refl bool(1) ne bool(2) p refl r]
          have "len c' \<le> len c2" .
          with boolean_len [OF p] c1 show ?thesis by simp
        next
          case str
          with "1.prems" unfold pos name Some avail
          obtain v c2 where p: "parse_scriptdata_string c1 = Inr (v, c2)"
            and r: "print_scriptdata_object c2 = Inr c'"
            by (auto simp: scriptdata_types split: sum.splits)
          from str have ne0: "?t \<noteq> SCRIPTDATA_NUMBER" by (simp add: scriptdata_types)
          from str have ne1: "?t \<noteq> SCRIPTDATA_BOOLEAN" by (simp add: scriptdata_types)
          from "1.IH"(3) [OF pos sym refl avail refl str(1) ne0 ne1 str(2) p refl r]
          have "len c' \<le> len c2" .
          with string_len [OF p] c1 show ?thesis by simp
        next
          case obj
          with "1.prems" unfold pos name Some avail
          obtain c2 where p: "print_scriptdata_object (advance 1 c1) = Inr c2"
            and r: "print_scriptdata_object c2 = Inr c'"
            by (auto simp: scriptdata_types split: sum.splits)
          from obj have ne0: "?t \<noteq> SCRIPTDATA_NUMBER" by (simp add: scriptdata_types)
          from obj have ne1: "?t \<noteq> SCRIPTDATA_BOOLEAN" by (simp add: scriptdata_types)
          from obj have ne2: "?t \<noteq> SCRIPTDATA_STRING" by (simp add: scriptdata_types)
          from "1.IH"(4) [OF pos sym refl avail refl obj(1) ne0 ne1 ne2 obj(2) p]
          have inner: "len c2 \<le> len (advance 1 c1)" .
          from "1.IH"(5) [OF pos sym refl avail refl obj(1) ne0 ne1 ne2 obj(2) p r]
          have "len c' \<le> len c2" .
          with inner c1 show ?thesis by (simp add: len_advance)
        next
          case arr
          with "1.prems" unfold pos name Some avail
          obtain v c2 where p: "parse_scriptdata_strict_array c1 = Inr (v, c2)"
            and r: "print_scriptdata_object c2 = Inr c'"
            by (auto simp: scriptdata_types split: sum.splits)
          from arr have ne0: "?t \<noteq> SCRIPTDATA_NUMBER" by (simp add: scriptdata_types)
          from arr have ne1: "?t \<noteq> SCRIPTDATA_BOOLEAN" by (simp add: scriptdata_types)
          from arr have ne2: "?t \<noteq> SCRIPTDATA_STRING" by (simp add: scriptdata_types)
          from arr have ne3: "?t \<noteq> SCRIPTDATA_OBJECT" by (simp add: scriptdata_types)
          from "1.IH"(6) [OF pos sym refl avail refl arr(1) ne0 ne1 ne2 ne3 arr(2) p refl r]
          have "len c' \<le> len c2" .
          with strict_array_len [OF p] c1 show ?thesis by simp
        next
          case date
          with "1.prems" unfold pos name Some avail
          obtain v c2 where p: "parse_scriptdata_date c1 = Inr (v, c2)"
            and r: "print_scriptdata_object c2 = Inr c'"
            by (auto simp: scriptdata_types split: sum.splits)
          from date have ne0: "?t \<noteq> SCRIPTDATA_NUMBER" by (simp add: scriptdata_types)
          from date have ne1: "?t \<noteq> SCRIPTDATA_BOOLEAN" by (simp add: scriptdata_types)
          from date have ne2: "?t \<noteq> SCRIPTDATA_STRING" by (simp add: scriptdata_types)
          from date have ne3: "?t \<noteq> SCRIPTDATA_OBJECT" by (simp add: scriptdata_types)
          from date have ne4: "?t \<noteq> SCRIPTDATA_STRICT_ARRAY" by (simp add: scriptdata_types)
          from "1.IH"(7) [OF pos sym refl avail refl date(1) ne0 ne1 ne2 ne3 ne4 date(2) p refl r]
          have "len c' \<le> len c2" .
          with date_len [OF p] c1 show ?thesis by simp
        next
          case other
          with "1.prems" unfold pos name Some avail have "c' = c1" by simp
          with c1 show ?thesis by simp
        qed
      qed
    qed
  qed
qed

termination print_scriptdata_object
  apply (relation "measure len")
  apply simp_all
  apply (auto dest!: string_without_type_Some_len [OF sym] number_len boolean_len string_len date_len strict_array_len print_scriptdata_object_len simp: len_advance)
  done

text \<open>
  The defining equation unfolds the loop once wherever it applies, so it is used only
  where asked for.
\<close>

declare print_scriptdata_object.simps [simp del]


section \<open>Script-data tags and the tag frame\<close>

text \<open>
  \<open>read_scriptdata_tag\<close> reads the whole payload into a buffer of \<open>data_size\<close> bytes
  and decodes it there. The counter starts at \<open>data_size\<close> whatever \<open>fread\<close> returned.
  After the object loop it asserts that the counter has reached 0.
\<close>

definition read_scriptdata_tag :: "flv_tag \<Rightarrow> stream \<Rightarrow> abort + (scriptdata_tag option \<times> stream)" where
  "read_scriptdata_tag flv_tag s =
     (if data_size flv_tag = 0 then Inr (None, s)
      else
        case fread_malloc (unat (data_size flv_tag)) s of
          Inl e \<Rightarrow> Inl e
        | Inr (n, got, s1) \<Rightarrow>
            (case parse_scriptdata_string \<lparr>data = got, len = unat (data_size flv_tag)\<rparr> of
               Inl e \<Rightarrow> Inl e
             | Inr (None, c1) \<Rightarrow> Inr (Some Scriptdata_tag, s1)
             | Inr (Some name_str, c1) \<Rightarrow>
                 (case parse_scriptdata_ECMA_array_raw c1 of
                    Inl e \<Rightarrow> Inl e
                  | Inr (None, c2) \<Rightarrow> Inr (Some Scriptdata_tag, s1)
                  | Inr (Some (value_type, value_num_of_items), c2) \<Rightarrow>
                      (case print_scriptdata_object c2 of
                         Inl e \<Rightarrow> Inl e
                       | Inr c3 \<Rightarrow>
                           if len c3 \<noteq> 0 then Inl AssertionFailed
                           else Inr (Some Scriptdata_tag, s1)))))"

text \<open>
  \<open>flv_read_tag\<close>: \<open>None\<close> is the \<open>NULL\<close> it returns at the end of the stream. The tag
  struct comes from \<open>malloc\<close>; \<open>uninit\<close> is the indeterminate byte a field of it holds
  until it is written. An unknown tag type ends in \<open>die()\<close>.
\<close>

definition flv_read_tag :: "u8 \<Rightarrow> stream \<Rightarrow> abort + (flv_tag option \<times> stream)" where
  "flv_read_tag uninit s =
     (case fread_4 s of (count0, prev_tag_size, s0) \<Rightarrow>
      case fread_1 uninit s0 of (count1, type', s1) \<Rightarrow>
        if eof s1 then Inr (None, s1)
        else
          case fread_3 s1 of (count2, size', s2) \<Rightarrow>
          case fread_3 s2 of (count3, ts, s3) \<Rightarrow>
          case fread_1 uninit s3 of (count4, ts_ext, s4) \<Rightarrow>
          case fread_3 s4 of (count5, sid, s5) \<Rightarrow>
          let tag = \<lparr>tag_type = type', data_size = size', timestamp = ts,
                     timestamp_ext = ts_ext, stream_id = sid, tag_data = None\<rparr>
          in
          if type' = TAGTYPE_AUDIODATA then
            (case read_audio_tag tag s5 of
               Inl e \<Rightarrow> Inl e
             | Inr (a, out, s6) \<Rightarrow>
                 Inr (Some (tag\<lparr>tag_data := Some (Audio (map_option fst a))\<rparr>), s6))
          else if type' = TAGTYPE_VIDEODATA then
            (case read_video_tag uninit tag s5 of
               Inl e \<Rightarrow> Inl e
             | Inr (v, s6) \<Rightarrow> Inr (Some (tag\<lparr>tag_data := Some (Video v)\<rparr>), s6))
          else if type' = TAGTYPE_SCRIPTDATAOBJECT then
            (case read_scriptdata_tag tag s5 of
               Inl e \<Rightarrow> Inl e
             | Inr (sd, s6) \<Rightarrow> Inr (Some (tag\<lparr>tag_data := Some (ScriptData sd)\<rparr>), s6))
          else Inl Exit)"

section \<open>The specification's readings\<close>


text \<open>
  The logical timestamp: the extension byte above the 24-bit timestamp,
  \<open>(ext << 24) | timestamp\<close>.
\<close>

definition spec_logical_timestamp :: "u8 \<Rightarrow> u32 \<Rightarrow> u32" where
  "spec_logical_timestamp ext ts = push_bit 24 (ucast ext) OR ts"

text \<open>The size of a strict array of \<open>n\<close> Numbers: \<open>1 + 4 + 8 * n\<close> bytes.\<close>

definition spec_strict_array_size :: "nat \<Rightarrow> nat" where
  "spec_strict_array_size n = 1 + 4 + 8 * n"

section \<open>Properties\<close>

subsection \<open>Short buffers in the primitive decoders\<close>

text \<open>
  C10, as stated, fails: a decoder called on a short buffer whose first byte is another
  type tag does not return 0. Its assertion on the type byte comes before the length
  check of the value and stops the process. The item loop of the strict array makes
  such a call on an item that is not a Number.
\<close>

theorem primitive_wrong_type_byte_counterexample:
  "parse_scriptdata_number (cursor_of [1]) = Inl AssertionFailed \<and>
   parse_scriptdata_boolean (cursor_of [0]) = Inl AssertionFailed \<and>
   parse_scriptdata_date (cursor_of [0, 1, 2]) = Inl AssertionFailed \<and>
   parse_scriptdata_strict_array (cursor_of [10, 0, 0, 0, 1, 1]) = Inl AssertionFailed"
  by (simp add: parse_scriptdata_number_def parse_scriptdata_boolean_def
      parse_scriptdata_date_def parse_scriptdata_strict_array_def advance_def cursor_of_def
      SCRIPTDATA_NUMBER_def SCRIPTDATA_BOOLEAN_def SCRIPTDATA_DATE_def
      SCRIPTDATA_STRICT_ARRAY_def)

text \<open>
  C10, amended. A Number needs 9 bytes (type byte and 8 bytes), a Boolean 2, a Date 11
  (type byte, 8 bytes, 2 bytes of offset). When the counter is below that, the decoder
  returns 0 and hands back the cursor as it got it, pointer and counter unchanged,
  unless a first byte is there and is not the decoder's own type tag: then its assertion
  fails.
\<close>

theorem primitive_short_buffer_keeps_cursor:
  "(len cn < 9 \<longrightarrow>
      parse_scriptdata_number cn =
        (if 1 \<le> len cn \<and> data cn ! 0 \<noteq> SCRIPTDATA_NUMBER then Inl AssertionFailed
         else Inr (0, cn))) \<and>
   (len cb < 2 \<longrightarrow>
      parse_scriptdata_boolean cb =
        (if 1 \<le> len cb \<and> data cb ! 0 \<noteq> SCRIPTDATA_BOOLEAN then Inl AssertionFailed
         else Inr (0, cb))) \<and>
   (len cd < 11 \<longrightarrow>
      parse_scriptdata_date cd =
        (if 1 \<le> len cd \<and> data cd ! 0 \<noteq> SCRIPTDATA_DATE then Inl AssertionFailed
         else Inr (0, cd)))"
  by (auto simp: parse_scriptdata_number_def parse_scriptdata_boolean_def
      parse_scriptdata_date_def Let_def len_advance)

theorem primitive_short_buffer_keeps_cursor_witness:
  "parse_scriptdata_number (cursor_of [0, 1, 2, 3]) = Inr (0, cursor_of [0, 1, 2, 3]) \<and>
   parse_scriptdata_boolean (cursor_of [1]) = Inr (0, cursor_of [1]) \<and>
   parse_scriptdata_date (cursor_of [11, 1, 2, 3, 4, 5, 6, 7, 8, 9])
     = Inr (0, cursor_of [11, 1, 2, 3, 4, 5, 6, 7, 8, 9])"
  using primitive_short_buffer_keeps_cursor
    [of "cursor_of [0, 1, 2, 3]" "cursor_of [1]" "cursor_of [11, 1, 2, 3, 4, 5, 6, 7, 8, 9]"]
  by (simp add: cursor_of_def scriptdata_types)

subsection \<open>Audio payloads\<close>

lemma mask32: "push_bit c (1 :: u32) - 1 = mask c"
  by (simp add: mask_eq_exp_minus_1 push_bit_eq_mult)

lemma flv_get_bits_take_drop:
  "unat start + unat count \<le> 8 \<Longrightarrow> flv_get_bits v start count = take_bit (unat count) (drop_bit (unat start) v)"
  unfolding flv_get_bits_def Let_def mask32
  apply (rule bit_word_eqI)
  apply (auto simp: bit_simps)
  done

lemma flv_get_bits_unat:
  assumes "unat start + unat count \<le> 8"
  shows "unat (flv_get_bits v start count) = unat v div 2 ^ unat start mod 2 ^ unat count"
proof -
  have "unat (flv_get_bits v start count) = take_bit (unat count) (drop_bit (unat start) (unat v))"
    using assms by (simp add: flv_get_bits_take_drop unsigned_take_bit_eq unat_drop_bit_eq)
  then show ?thesis
    by (simp add: take_bit_eq_mod drop_bit_eq_div)
qed

lemma byte_bound: "unat (b :: u8) < 256"
  using unsigned_less [of b] by simp

lemma sound_format_bits: "unat (flv_get_bits b 4 4) = unat b div 16"
  using flv_get_bits_unat [of 4 4 b] byte_bound [of b] by simp
lemma codec_id_bits: "unat (flv_get_bits b 0 4) = unat b mod 16"
  using flv_get_bits_unat [of 0 4 b] by simp

lemma fread_bytes:
  "fread (Suc 0) n (open_stream bs) = (min n (length bs), take n bs, \<lparr>pending = drop n bs, eof = (length bs < n)\<rparr>)"
  by (auto simp: fread_def open_stream_def)

lemma fread_1_Cons: "fread_1 old (open_stream (b # bs)) = (1, b, open_stream bs)"
  by (simp add: fread_1_def fread_def open_stream_def stored_def)

lemma size_sub_le:
  assumes "b \<le> a" "a < 2 ^ 64"
  shows "size_sub a b = a - b"
proof -
  from assms have 1: "b mod 2 ^ 64 = b" by simp
  from assms have 2: "a + 2 ^ 64 - b = (a - b) + 2 ^ 64" by simp
  from assms have 3: "a - b < 2 ^ 64" by simp
  show ?thesis unfolding size_sub_def 1 2 using 3 by simp
qed

lemma unat_u32_size: "unat (w :: u32) < 2 ^ 64"
proof -
  have "unat w < 2 ^ 32" using unsigned_less [of w] by simp
  then show ?thesis by simp
qed

lemma size_sub_data: "n \<le> unat (d :: u32) \<Longrightarrow> size_sub (unat d) n = unat d - n"
  using size_sub_le [of n "unat d"] unat_u32_size [of d] by simp

lemma data_size_pos: "d \<noteq> 0 \<Longrightarrow> Suc 0 \<le> unat (d :: u32)"
  by (simp add: unat_gt_0 Suc_le_eq)

lemma malloc_grants_data: "\<not> malloc_fails (unat (d :: u32) - n)"
proof -
  have "unat d < 2 ^ 32" using unsigned_less [of d] by simp
  then have "unat d - n < 2 ^ 63" by simp
  then show ?thesis
    by (simp add: malloc_fails_def)
qed

lemma fread_malloc_data:
  assumes "n \<le> unat (d :: u32)"
  shows "fread_malloc (size_sub (unat d) n) (open_stream bs) =
    Inr (min (unat d - n) (length bs), take (unat d - n) bs,
         \<lparr>pending = drop (unat d - n) bs, eof = (length bs < unat d - n)\<rparr>)"
  by (simp add: fread_malloc_def size_sub_data [OF assms] fread_bytes malloc_grants_data)



lemma read_audio_tag_other:
  assumes "data_size flv_tag \<noteq> 0" "flv_get_bits b 4 4 \<noteq> 10"
  shows "read_audio_tag flv_tag (open_stream (b # rest)) =
    Inr (Some (\<lparr>sound_format = flv_get_bits b 4 4, sound_rate = flv_get_bits b 2 2,
             sound_size = flv_get_bits b 1 1, sound_type = flv_get_bits b 0 1,
             audio_data = take (unat (data_size flv_tag) - 1) rest\<rparr>, 255), [],
     \<lparr>pending = drop (unat (data_size flv_tag) - 1) rest,
        eof = (length rest < unat (data_size flv_tag) - 1)\<rparr>)"
  using assms data_size_pos [OF assms(1)]
  by (simp add: read_audio_tag_def fread_1_Cons fread_malloc_data)

lemma two_le_data_size: "2 \<le> unat (d :: u32) \<Longrightarrow> d \<noteq> 0"
  by auto

lemma read_audio_tag_aac:
  assumes "2 \<le> unat (data_size flv_tag)" "flv_get_bits b 4 4 = 10"
  shows "read_audio_tag flv_tag (open_stream (b # p # rest)) =
    Inr (Some (\<lparr>sound_format = 10, sound_rate = flv_get_bits b 2 2,
             sound_size = flv_get_bits b 1 1, sound_type = flv_get_bits b 0 1,
             audio_data = take (unat (data_size flv_tag) - 2) rest\<rparr>, p),
     AAC_packet_type p (if p = 0 then ''AAC sequence header'' else ''AAC raw'')
       # (if p = 0 \<and> take (unat (data_size flv_tag) - 2) rest \<noteq> []
          then [AAC_AudioSpecificConfig (take (unat (data_size flv_tag) - 2) rest)] else []),
     \<lparr>pending = drop (unat (data_size flv_tag) - 2) rest,
        eof = (length rest < unat (data_size flv_tag) - 2)\<rparr>)"
proof -
  from assms(1) have two: "Suc (Suc 0) \<le> unat (data_size flv_tag)" by simp
  from assms two_le_data_size [OF assms(1)] show ?thesis
    by (simp add: read_audio_tag_def fread_1_Cons fread_malloc_data [OF two] numeral_2_eq_2)
qed


lemma sound_format_is_aac: "flv_get_bits b 4 4 = 10 \<longleftrightarrow> unat b div 16 = 10"
  by (simp add: word_unat_eq_iff sound_format_bits)




subsection \<open>Stream reads and big-endian values\<close>

lemma fread_3_Cons:
  "fread_3 (open_stream (a # b # c # rest)) =
     (3, push_bit 16 (ucast a) OR push_bit 8 (ucast b) OR ucast c, open_stream rest)"
  by (simp add: fread_3_def fread_def open_stream_def stored_def)

lemma fread_4_Cons:
  "fread_4 (open_stream (a # b # c # d # rest)) =
     (4, push_bit 24 (ucast a) OR push_bit 16 (ucast b) OR push_bit 8 (ucast c) OR ucast d,
      open_stream rest)"
  by (simp add: fread_4_def fread_def open_stream_def stored_def)

lemma be24_disjoint:
  "push_bit 8 (ucast (b :: u8)) AND (ucast (c :: u8) :: u32) = 0"
  "push_bit 16 (ucast (a :: u8)) AND (push_bit 8 (ucast (b :: u8)) OR (ucast (c :: u8) :: u32)) = 0"
  by (rule bit_word_eqI; auto simp: bit_simps dest: bit_imp_le_length)+

lemma be24_sum:
  "(push_bit 16 (ucast a) OR push_bit 8 (ucast b) OR ucast c :: u32)
     = word_of_nat (unat (a :: u8) * 65536 + unat (b :: u8) * 256 + unat (c :: u8))"
proof -
  have "(push_bit 16 (ucast a) OR push_bit 8 (ucast b) OR ucast c :: u32)
      = push_bit 16 (ucast a) + (push_bit 8 (ucast b) + ucast c)"
    by (simp add: disjunctive_add_eq_or be24_disjoint)
  then show ?thesis
    by (simp add: push_bit_eq_mult)
qed

lemma unat_be24:
  "unat (push_bit 16 (ucast a) OR push_bit 8 (ucast b) OR ucast c :: u32)
     = unat (a :: u8) * 65536 + unat (b :: u8) * 256 + unat (c :: u8)"
  unfolding be24_sum unat_of_nat
  using byte_bound [of a] byte_bound [of b] byte_bound [of c]
  by simp

lemma eof_open_stream: "eof (open_stream bs) = False" "pending (open_stream bs) = bs"
  by (simp_all add: open_stream_def)

subsection \<open>AVC packets\<close>

lemma read_avc_video_tag_nalu:
  assumes "frame_type vt \<noteq> 5" "8 \<le> unat ds"
  shows "read_avc_video_tag u vt ft ds
           (open_stream (1 # ca # cb # cc # na # nb # nc # nd # rest)) =
    Inr (\<lparr>avc_packet_type = 1,
           composition_time = push_bit 16 (ucast ca) OR push_bit 8 (ucast cb) OR ucast cc,
           nalu_len = push_bit 24 (ucast na) OR push_bit 16 (ucast nb)
                        OR push_bit 8 (ucast nc) OR ucast nd,
           avc_data = take (unat ds - 8) rest\<rparr>,
         \<lparr>pending = drop (unat ds - 8) rest, eof = (length rest < unat ds - 8)\<rparr>)"
  using assms
  by (simp add: read_avc_video_tag_def fread_1_Cons fread_3_Cons fread_4_Cons
      fread_malloc_data)

lemma read_avc_video_tag_other:
  assumes "frame_type vt \<noteq> 5" "t \<noteq> 1" "1 \<le> unat ds"
  shows "read_avc_video_tag u vt ft ds (open_stream (t # rest)) =
    Inr (\<lparr>avc_packet_type = t, composition_time = 0, nalu_len = 0,
           avc_data = take (unat ds - 1) rest\<rparr>,
         \<lparr>pending = drop (unat ds - 1) rest, eof = (length rest < unat ds - 1)\<rparr>)"
  using assms
  by (simp add: read_avc_video_tag_def fread_1_Cons fread_malloc_data)



lemma read_avc_video_tag_frame_5:
  assumes "frame_type vt = 5"
  shows "read_avc_video_tag u vt ft ds s = Inl AssertionFailed"
  using assms
  by (simp add: read_avc_video_tag_def split: prod.splits)

lemma be32_disjoint:
  "push_bit 8 (ucast (c :: u8)) AND (ucast (d :: u8) :: u32) = 0"
  "push_bit 16 (ucast (b :: u8)) AND (push_bit 8 (ucast (c :: u8)) OR (ucast (d :: u8) :: u32)) = 0"
  "push_bit 24 (ucast (a :: u8)) AND (push_bit 16 (ucast (b :: u8))
      OR push_bit 8 (ucast (c :: u8)) OR (ucast (d :: u8) :: u32)) = 0"
  by (rule bit_word_eqI; auto simp: bit_simps dest: bit_imp_le_length)+

lemma be32_sum:
  "(push_bit 24 (ucast a) OR push_bit 16 (ucast b) OR push_bit 8 (ucast c) OR ucast d :: u32)
     = word_of_nat (unat (a :: u8) * 16777216 + unat (b :: u8) * 65536
         + unat (c :: u8) * 256 + unat (d :: u8))"
proof -
  have "(push_bit 24 (ucast a) OR push_bit 16 (ucast b) OR push_bit 8 (ucast c) OR ucast d :: u32)
      = push_bit 24 (ucast a) + (push_bit 16 (ucast b) + (push_bit 8 (ucast c) + ucast d))"
    by (simp add: disjunctive_add_eq_or be32_disjoint)
  then show ?thesis
    by (simp add: push_bit_eq_mult)
qed

lemma unat_be32:
  "unat (push_bit 24 (ucast a) OR push_bit 16 (ucast b) OR push_bit 8 (ucast c) OR ucast d :: u32)
     = unat (a :: u8) * 16777216 + unat (b :: u8) * 65536 + unat (c :: u8) * 256 + unat (d :: u8)"
  unfolding be32_sum unat_of_nat
  using byte_bound [of a] byte_bound [of b] byte_bound [of c] byte_bound [of d]
  by simp






subsection \<open>Video payloads\<close>

lemma frame_type_bits: "flv_get_bits b 4 4 = 5 \<longleftrightarrow> unat b div 16 = 5"
  by (simp add: word_unat_eq_iff sound_format_bits)

lemma codec_is_avc: "flv_get_bits b 0 4 = FLV_CODEC_ID_AVC \<longleftrightarrow> unat b mod 16 = 7"
  by (simp add: word_unat_eq_iff codec_id_bits FLV_CODEC_ID_AVC_def)

lemma read_video_tag_raw:
  assumes "data_size ft \<noteq> 0" "flv_get_bits b 0 4 \<noteq> FLV_CODEC_ID_AVC"
  shows "read_video_tag u ft (open_stream (b # rest)) =
    Inr (Some \<lparr>frame_type = flv_get_bits b 4 4, codec_id = flv_get_bits b 0 4,
                video_data = Some (Raw (take (unat (data_size ft) - 1) rest))\<rparr>,
         \<lparr>pending = drop (unat (data_size ft) - 1) rest,
            eof = (length rest < unat (data_size ft) - 1)\<rparr>)"
  using assms data_size_pos [OF assms(1)]
  by (simp add: read_video_tag_def fread_1_Cons fread_malloc_data)

lemma read_video_tag_avc:
  assumes "data_size ft \<noteq> 0" "flv_get_bits b 0 4 = FLV_CODEC_ID_AVC"
  shows "read_video_tag u ft (open_stream (b # rest)) =
    (case read_avc_video_tag u
            \<lparr>frame_type = flv_get_bits b 4 4, codec_id = FLV_CODEC_ID_AVC, video_data = None\<rparr> ft
            (word_of_nat (unat (data_size ft) - 1)) (open_stream rest)
     of Inl e \<Rightarrow> Inl e
      | Inr (avc, s2) \<Rightarrow>
          Inr (Some \<lparr>frame_type = flv_get_bits b 4 4, codec_id = flv_get_bits b 0 4,
                      video_data = Some (AVC avc)\<rparr>, s2))"
  using assms data_size_pos [OF assms(1)]
  by (simp add: read_video_tag_def fread_1_Cons size_sub_data Let_def)

text \<open>
  C8, as stated, fails: a frame type 5 with a codec other than AVC is decoded like any
  other frame, its payload read as raw bytes.
\<close>

theorem video_frame_type_5_counterexample:
  "read_video_tag 0 \<lparr>tag_type = 9, data_size = 3, timestamp = 0, timestamp_ext = 0,
      stream_id = 0, tag_data = None\<rparr> (open_stream [0x52, 1, 2, 3])
     = Inr (Some \<lparr>frame_type = 5, codec_id = 2, video_data = Some (Raw [1, 2])\<rparr>,
            open_stream [3])"
  by (simp add: read_video_tag_def fread_1_def fread_def stored_def open_stream_def
      flv_get_bits_def size_sub_def fread_malloc_def malloc_fails_def FLV_CODEC_ID_AVC_def)

text \<open>
  C8, amended. For a video payload whose first byte has frame type 5: with codec id 7
  (AVC) the AVC packet decoder stops in its failed assertion, whatever follows in the
  stream; with any other codec id the decoder returns the tag with the rest of the
  declared payload as raw bytes.
\<close>

theorem video_frame_type_5:
  assumes "data_size ft \<noteq> 0" "unat b div 16 = 5"
  shows
   "(unat b mod 16 = 7 \<longrightarrow>
       read_video_tag u ft (open_stream (b # rest)) = Inl AssertionFailed) \<and>
    (unat b mod 16 \<noteq> 7 \<longrightarrow>
       (\<exists>tag s'. read_video_tag u ft (open_stream (b # rest)) = Inr (Some tag, s') \<and>
          frame_type tag = 5 \<and> unat (codec_id tag) = unat b mod 16 \<and>
          video_data tag = Some (Raw (take (unat (data_size ft) - 1) rest)) \<and>
          pending s' = drop (unat (data_size ft) - 1) rest))"
proof (intro conjI impI)
  from assms(2) have frame: "flv_get_bits b 4 4 = 5"
    by (simp add: frame_type_bits)
  {
    assume "unat b mod 16 = 7"
    then have "flv_get_bits b 0 4 = FLV_CODEC_ID_AVC"
      by (simp add: codec_is_avc)
    from read_video_tag_avc [OF assms(1) this]
    show "read_video_tag u ft (open_stream (b # rest)) = Inl AssertionFailed"
      by (simp add: frame read_avc_video_tag_frame_5)
  next
    assume "unat b mod 16 \<noteq> 7"
    then have "flv_get_bits b 0 4 \<noteq> FLV_CODEC_ID_AVC"
      by (simp add: codec_is_avc)
    from read_video_tag_raw [OF assms(1) this]
    show "\<exists>tag s'. read_video_tag u ft (open_stream (b # rest)) = Inr (Some tag, s') \<and>
          frame_type tag = 5 \<and> unat (codec_id tag) = unat b mod 16 \<and>
          video_data tag = Some (Raw (take (unat (data_size ft) - 1) rest)) \<and>
          pending s' = drop (unat (data_size ft) - 1) rest"
      by (simp add: frame codec_id_bits)
  }
qed

theorem video_frame_type_5_witness:
  "read_video_tag 0 \<lparr>tag_type = 9, data_size = 3, timestamp = 0, timestamp_ext = 0,
      stream_id = 0, tag_data = None\<rparr> (open_stream [0x57, 1, 2, 3]) = Inl AssertionFailed \<and>
   read_video_tag 0 \<lparr>tag_type = 9, data_size = 3, timestamp = 0, timestamp_ext = 0,
      stream_id = 0, tag_data = None\<rparr> (open_stream [0x54, 7, 8, 9])
     = Inr (Some \<lparr>frame_type = 5, codec_id = 4, video_data = Some (Raw [7, 8])\<rparr>,
            open_stream [9])"
  using video_frame_type_5 [where ft = "\<lparr>tag_type = 9, data_size = 3, timestamp = 0,
        timestamp_ext = 0, stream_id = 0, tag_data = None\<rparr>" and b = "0x57" and u = 0
        and rest = "[1, 2, 3]"]
    video_frame_type_5 [where ft = "\<lparr>tag_type = 9, data_size = 3, timestamp = 0,
        timestamp_ext = 0, stream_id = 0, tag_data = None\<rparr>" and b = "0x54" and u = 0
        and rest = "[7, 8, 9]"]
  by (simp add: read_video_tag_def fread_1_def fread_def stored_def open_stream_def
      flv_get_bits_def size_sub_def fread_malloc_def malloc_fails_def FLV_CODEC_ID_AVC_def)

subsection \<open>The tag frame\<close>

lemma flv_read_tag_header:
  "flv_read_tag u (open_stream (pa # pb # pc # pd # t # da # db # dc # ta # tb # tc # e
                                 # sa # sb # sc # rest)) =
    (let tag = \<lparr>tag_type = t,
                 data_size = push_bit 16 (ucast da) OR push_bit 8 (ucast db) OR ucast dc,
                 timestamp = push_bit 16 (ucast ta) OR push_bit 8 (ucast tb) OR ucast tc,
                 timestamp_ext = e,
                 stream_id = push_bit 16 (ucast sa) OR push_bit 8 (ucast sb) OR ucast sc,
                 tag_data = None\<rparr>
     in if t = TAGTYPE_AUDIODATA then
          (case read_audio_tag tag (open_stream rest) of
             Inl e \<Rightarrow> Inl e
           | Inr (a, out, s6) \<Rightarrow>
               Inr (Some (tag\<lparr>tag_data := Some (Audio (map_option fst a))\<rparr>), s6))
        else if t = TAGTYPE_VIDEODATA then
          (case read_video_tag u tag (open_stream rest) of
             Inl e \<Rightarrow> Inl e
           | Inr (v, s6) \<Rightarrow> Inr (Some (tag\<lparr>tag_data := Some (Video v)\<rparr>), s6))
        else if t = TAGTYPE_SCRIPTDATAOBJECT then
          (case read_scriptdata_tag tag (open_stream rest) of
             Inl e \<Rightarrow> Inl e
           | Inr (sd, s6) \<Rightarrow> Inr (Some (tag\<lparr>tag_data := Some (ScriptData sd)\<rparr>), s6))
        else Inl Exit)"
  by (simp add: flv_read_tag_def fread_4_Cons fread_1_Cons fread_3_Cons eof_open_stream)

lemmas tag_types = TAGTYPE_AUDIODATA_def TAGTYPE_VIDEODATA_def TAGTYPE_SCRIPTDATAOBJECT_def

lemmas stream_eval = fread_1_def fread_3_def fread_4_def fread_def stored_def open_stream_def
  size_sub_def fread_malloc_def malloc_fails_def flv_get_bits_def

text \<open>
  C4, as stated, fails: for a tag-type byte 7 the parser ends the process through
  \<open>die()\<close>; no error value is returned.
\<close>

theorem unknown_tag_type_counterexample:
  "flv_read_tag 0 (open_stream [0, 0, 0, 0, 7, 0, 0, 0, 0, 0, 0, 0, 0, 0, 0]) = Inl Exit"
  by (simp add: flv_read_tag_def stream_eval tag_types)

text \<open>
  C4, amended. Once the previous-tag-size field and the tag-type byte are read, a tag-type
  byte other than 8, 9 and 18 makes \<open>flv_read_tag\<close> call \<open>die()\<close>, which exits the
  process; this holds whatever the rest of the stream is.
\<close>

theorem unknown_tag_type_exits:
  assumes "t \<noteq> 8" "t \<noteq> 9" "t \<noteq> 18"
  shows "flv_read_tag u (open_stream (pa # pb # pc # pd # t # rest)) = Inl Exit"
  using assms
  by (simp add: flv_read_tag_def fread_4_Cons fread_1_Cons eof_open_stream tag_types
      split: prod.splits)

theorem unknown_tag_type_exits_witness:
  "flv_read_tag 0 (open_stream [0, 0, 0, 11, 10, 0, 0, 1, 0, 0, 0, 0, 0, 0, 0, 0x2F]) = Inl Exit"
  using unknown_tag_type_exits [of 10 0 0 0 0 11 "[0, 0, 1, 0, 0, 0, 0, 0, 0, 0, 0x2F]"]
  by simp

text \<open>
  C6, as stated, fails: with timestamp bytes \<open>00 00 05\<close> and extension byte 1 the tag
  holds the timestamp 5 and the extension 1; the combined value \<open>0x1000005\<close> is computed
  nowhere.
\<close>

theorem timestamp_not_combined_counterexample:
  "flv_read_tag 0 (open_stream [0, 0, 0, 0, 8, 0, 0, 0, 0, 0, 5, 1, 0, 0, 0])
     = Inr (Some \<lparr>tag_type = 8, data_size = 0, timestamp = 5, timestamp_ext = 1,
                   stream_id = 0, tag_data = Some (Audio None)\<rparr>, open_stream []) \<and>
   spec_logical_timestamp 1 5 = 0x1000005"
  by (simp add: flv_read_tag_def read_audio_tag_def stream_eval tag_types
      spec_logical_timestamp_def)

lemma flv_read_tag_fields:
  assumes "flv_read_tag u (open_stream (pa # pb # pc # pd # t # da # db # dc # ta # tb # tc # e
                                 # sa # sb # sc # rest)) = Inr (Some tag, s')"
  shows "tag_type tag = t"
    and "data_size tag = push_bit 16 (ucast da) OR push_bit 8 (ucast db) OR ucast dc"
    and "timestamp tag = push_bit 16 (ucast ta) OR push_bit 8 (ucast tb) OR ucast tc"
    and "timestamp_ext tag = e"
    and "stream_id tag = push_bit 16 (ucast sa) OR push_bit 8 (ucast sb) OR ucast sc"
  using assms unfolding flv_read_tag_header Let_def
  by (auto split: if_splits prod.splits sum.splits)

lemma read_audio_tag_returns:
  assumes "\<forall>b rest'. rest = b # rest' \<longrightarrow> unat b div 16 \<noteq> 10"
  shows "\<exists>r. read_audio_tag ft (open_stream rest) = Inr r"
proof (cases "data_size ft = 0")
  case True
  then show ?thesis by (simp add: read_audio_tag_def)
next
  case False
  show ?thesis
  proof (cases rest)
    case Nil
    have none: "fread_1 0 (open_stream []) = (0, 0, \<lparr>pending = [], eof = True\<rparr>)"
      by (simp add: fread_1_def fread_def stored_def open_stream_def)
    have "flv_get_bits 0 4 4 \<noteq> 10"
      by (simp add: sound_format_is_aac)
    moreover have "\<not> malloc_fails (unat (data_size ft))"
      using malloc_grants_data [of "data_size ft" 0] by simp
    ultimately show ?thesis
      using False Nil
      by (simp add: read_audio_tag_def none fread_malloc_def size_sub_data split: prod.splits)
  next
    case (Cons b rest')
    with assms have "flv_get_bits b 4 4 \<noteq> 10"
      by (simp add: sound_format_is_aac)
    from read_audio_tag_other [OF False this] Cons show ?thesis
      by simp
  qed
qed

lemma flv_read_tag_audio_returns:
  assumes "\<forall>b rest'. rest = b # rest' \<longrightarrow> unat b div 16 \<noteq> 10"
  shows "\<exists>tag s'. flv_read_tag u (open_stream (pa # pb # pc # pd # 8 # da # db # dc # ta # tb # tc # e
                                 # sa # sb # sc # rest)) = Inr (Some tag, s')"
proof -
  from read_audio_tag_returns [OF assms]
  obtain r where "read_audio_tag \<lparr>tag_type = 8,
                 data_size = push_bit 16 (ucast da) OR push_bit 8 (ucast db) OR ucast dc,
                 timestamp = push_bit 16 (ucast ta) OR push_bit 8 (ucast tb) OR ucast tc,
                 timestamp_ext = e,
                 stream_id = push_bit 16 (ucast sa) OR push_bit 8 (ucast sb) OR ucast sc,
                 tag_data = None\<rparr> (open_stream rest) = Inr r"
    by blast
  then show ?thesis
    unfolding flv_read_tag_header Let_def
    by (simp add: tag_types split: prod.splits)
qed

text \<open>
  C6, amended. Every tag the parser returns for a stream with a complete header keeps
  the 24-bit big-endian timestamp and the timestamp-extension byte in two fields, each
  as read. Such tags exist: for an audio header whose payload does not begin with an AAC
  byte the parser returns a tag.
\<close>

theorem timestamp_fields_kept_apart:
  "(\<forall>tag s'. flv_read_tag u (open_stream (pa # pb # pc # pd # t # da # db # dc # ta # tb # tc # e
                                 # sa # sb # sc # rest)) = Inr (Some tag, s') \<longrightarrow>
      unat (timestamp tag) = unat ta * 65536 + unat tb * 256 + unat tc \<and>
      timestamp_ext tag = e) \<and>
   (t = 8 \<and> (\<forall>b rest'. rest = b # rest' \<longrightarrow> unat b div 16 \<noteq> 10) \<longrightarrow>
      (\<exists>tag s'. flv_read_tag u (open_stream (pa # pb # pc # pd # t # da # db # dc # ta # tb # tc # e
                                 # sa # sb # sc # rest)) = Inr (Some tag, s')))"
proof (rule conjI; intro allI impI)
  fix tag s'
  assume "flv_read_tag u (open_stream (pa # pb # pc # pd # t # da # db # dc # ta # tb # tc # e
                                 # sa # sb # sc # rest)) = Inr (Some tag, s')"
  from flv_read_tag_fields(3, 4) [OF this]
  show "unat (timestamp tag) = unat ta * 65536 + unat tb * 256 + unat tc \<and> timestamp_ext tag = e"
    by (simp add: unat_be24)
next
  assume "t = 8 \<and> (\<forall>b rest'. rest = b # rest' \<longrightarrow> unat b div 16 \<noteq> 10)"
  then have "t = 8" and "\<forall>b rest'. rest = b # rest' \<longrightarrow> unat b div 16 \<noteq> 10"
    by simp_all
  with flv_read_tag_audio_returns [of rest u pa pb pc pd da db dc ta tb tc e sa sb sc]
  show "\<exists>tag s'. flv_read_tag u (open_stream (pa # pb # pc # pd # t # da # db # dc # ta # tb # tc # e
                                 # sa # sb # sc # rest)) = Inr (Some tag, s')"
    by simp
qed

theorem timestamp_fields_kept_apart_witness:
  "flv_read_tag 0 (open_stream [0, 0, 0, 0, 8, 0, 0, 1, 1, 2, 3, 4, 0, 0, 0, 0x2F, 0x77])
     = Inr (Some \<lparr>tag_type = 8, data_size = 1, timestamp = 0x010203, timestamp_ext = 4,
                   stream_id = 0,
                   tag_data = Some (Audio (Some \<lparr>sound_format = 2, sound_rate = 3,
                     sound_size = 1, sound_type = 1, audio_data = []\<rparr>))\<rparr>,
            open_stream [0x77])"
  using timestamp_fields_kept_apart [of 0 0 0 0 0 8 0 0 1 1 2 3 4 0 0 0 "[0x2F, 0x77]"]
  by (simp add: flv_read_tag_def read_audio_tag_def stream_eval tag_types)

subsection \<open>Short reads\<close>

text \<open>
  C2, as stated, fails: on an exhausted stream both reads hand back the value 0 put
  together from the zero-initialised buffer, and a stream that ends right after the
  tag-type byte gives a tag whose sizes and times are those zeros.
\<close>

theorem short_read_zero_fill_counterexample:
  "fread_3 (open_stream []) = (0, 0, \<lparr>pending = [], eof = True\<rparr>) \<and>
   fread_4 (open_stream []) = (0, 0, \<lparr>pending = [], eof = True\<rparr>) \<and>
   flv_read_tag 0 (open_stream [0, 0, 0, 0, 8])
     = Inr (Some \<lparr>tag_type = 8, data_size = 0, timestamp = 0, timestamp_ext = 0,
                   stream_id = 0, tag_data = Some (Audio None)\<rparr>,
            \<lparr>pending = [], eof = True\<rparr>)"
  by (simp add: flv_read_tag_def read_audio_tag_def stream_eval tag_types)

lemma fread_short:
  "length bs < n \<Longrightarrow> fread n (Suc 0) (open_stream bs) = (0, bs, \<lparr>pending = [], eof = True\<rparr>)"
  by (simp add: fread_def open_stream_def)

text \<open>
  C2, amended. When fewer bytes are pending than a 24-bit or 32-bit read asks for, the
  read returns the byte count 0, takes what is pending and sets the end-of-file
  indicator; it still stores a value, which is 0 when nothing was pending. With enough
  bytes it returns the count 3 or 4 and the big-endian value of the bytes it consumed.
\<close>

theorem multi_byte_reads:
  "(length bs < 3 \<longrightarrow>
      (\<exists>v. fread_3 (open_stream bs) = (0, v, \<lparr>pending = [], eof = True\<rparr>) \<and>
           (bs = [] \<longrightarrow> v = 0))) \<and>
   (length bs < 4 \<longrightarrow>
      (\<exists>v. fread_4 (open_stream bs) = (0, v, \<lparr>pending = [], eof = True\<rparr>) \<and>
           (bs = [] \<longrightarrow> v = 0))) \<and>
   (\<exists>v. fread_3 (open_stream (a # b # c # rest)) = (3, v, open_stream rest) \<and>
        unat v = unat a * 65536 + unat b * 256 + unat c) \<and>
   (\<exists>v. fread_4 (open_stream (a # b # c # d # rest)) = (4, v, open_stream rest) \<and>
        unat v = unat a * 16777216 + unat b * 65536 + unat c * 256 + unat d)"
proof (intro conjI impI)
  assume "length bs < 3"
  then show "\<exists>v. fread_3 (open_stream bs) = (0, v, \<lparr>pending = [], eof = True\<rparr>) \<and>
           (bs = [] \<longrightarrow> v = 0)"
    by (auto simp: fread_3_def fread_short stored_def Let_def)
next
  assume "length bs < 4"
  then show "\<exists>v. fread_4 (open_stream bs) = (0, v, \<lparr>pending = [], eof = True\<rparr>) \<and>
           (bs = [] \<longrightarrow> v = 0)"
    by (auto simp: fread_4_def fread_short stored_def Let_def)
next
  show "\<exists>v. fread_3 (open_stream (a # b # c # rest)) = (3, v, open_stream rest) \<and>
        unat v = unat a * 65536 + unat b * 256 + unat c"
    by (simp add: fread_3_Cons unat_be24)
next
  show "\<exists>v. fread_4 (open_stream (a # b # c # d # rest)) = (4, v, open_stream rest) \<and>
        unat v = unat a * 16777216 + unat b * 65536 + unat c * 256 + unat d"
    by (simp add: fread_4_Cons unat_be32)
qed

theorem multi_byte_reads_witness:
  "fst (fread_3 (open_stream [0x12, 0x34])) = 0 \<and>
   snd (snd (fread_3 (open_stream [0x12, 0x34]))) = \<lparr>pending = [], eof = True\<rparr> \<and>
   fst (fread_4 (open_stream [0x12])) = 0 \<and>
   snd (snd (fread_4 (open_stream [0x12]))) = \<lparr>pending = [], eof = True\<rparr> \<and>
   fread_3 (open_stream [1, 2, 3, 4]) = (3, 0x010203, open_stream [4]) \<and>
   fread_4 (open_stream [1, 2, 3, 4, 5]) = (4, 0x01020304, open_stream [5])"
  using multi_byte_reads [where bs = "[0x12, 0x34]" and a = 1 and b = 2 and c = 3 and d = 4
      and rest = "[5]"]
    multi_byte_reads [where bs = "[0x12]" and a = 1 and b = 2 and c = 3 and d = 4
      and rest = "[4]"]
  by (simp add: stream_eval)

subsection \<open>Payload sizes\<close>

lemma unknown_tag_type_exits_aux:
  assumes "t \<noteq> 8" "t \<noteq> 9" "t \<noteq> 18"
  shows "flv_read_tag u (open_stream (pa # pb # pc # pd # t # rest)) = Inl Exit"
  using assms
  by (simp add: flv_read_tag_def fread_4_Cons fread_1_Cons eof_open_stream tag_types
      split: prod.splits)


lemma seven_bytes:
  assumes "7 \<le> length (xs :: u8 list)"
  shows "\<exists>a b c d e f g ys. xs = a # b # c # d # e # f # g # ys"
proof -
  define ys where "ys = take 7 xs"
  with assms have "length ys = 7" by simp
  then obtain a b c d e f g where "ys = [a, b, c, d, e, f, g]"
    by (auto simp: length_Suc_conv eval_nat_numeral)
  moreover have "xs = ys @ drop 7 xs"
    by (simp add: ys_def)
  ultimately have "xs = a # b # c # d # e # f # g # drop 7 xs"
    by simp
  then show ?thesis by blast
qed

lemma unat_zero_size: "unat (d :: u32) = 0 \<Longrightarrow> d = 0"
  by (simp add: unat_eq_0)

lemma read_audio_tag_consumes:
  assumes size: "unat (data_size ft) = length payload"
    and aac: "payload \<noteq> [] \<Longrightarrow> unat (hd payload) div 16 = 10 \<Longrightarrow> 2 \<le> length payload"
  shows "\<exists>r out. read_audio_tag ft (open_stream (payload @ rest)) = Inr (r, out, open_stream rest)"
proof (cases payload)
  case Nil
  with size have "data_size ft = 0" by (simp add: unat_zero_size)
  with Nil show ?thesis by (simp add: read_audio_tag_def)
next
  case (Cons b p)
  with size have nz: "data_size ft \<noteq> 0" by auto
  show ?thesis
  proof (cases "flv_get_bits b 4 4 = 10")
    case False
    from read_audio_tag_other [OF nz False, of "p @ rest"] size Cons show ?thesis
      by (simp add: open_stream_def)
  next
    case True
    with aac Cons have "2 \<le> length payload"
      by (simp add: sound_format_is_aac)
    with Cons obtain q p' where p: "p = q # p'" by (cases p) auto
    from \<open>2 \<le> length payload\<close> size have two: "2 \<le> unat (data_size ft)" by simp
    from read_audio_tag_aac [OF two True, of q "p' @ rest"] size Cons p show ?thesis
      by (simp add: open_stream_def)
  qed
qed

lemma flv_read_tag_audio_payload:
  assumes size: "length payload = unat da * 65536 + unat db * 256 + unat dc"
    and aac: "payload \<noteq> [] \<Longrightarrow> unat (hd payload) div 16 = 10 \<Longrightarrow> 2 \<le> length payload"
  shows "\<exists>tag. flv_read_tag u (open_stream (pa # pb # pc # pd # 8 # da # db # dc # ta # tb # tc
                          # e # sa # sb # sc # payload @ rest)) = Inr (Some tag, open_stream rest)"
proof -
  let ?hdr = "\<lparr>tag_type = 8,
      data_size = push_bit 16 (ucast da) OR push_bit 8 (ucast db) OR ucast dc,
      timestamp = push_bit 16 (ucast ta) OR push_bit 8 (ucast tb) OR ucast tc,
      timestamp_ext = e,
      stream_id = push_bit 16 (ucast sa) OR push_bit 8 (ucast sb) OR ucast sc,
      tag_data = None\<rparr>"
  from size have declared: "unat (data_size ?hdr) = length payload"
    by (simp add: unat_be24)
  from read_audio_tag_consumes [OF declared aac, of rest]
  obtain r out where "read_audio_tag ?hdr (open_stream (payload @ rest)) = Inr (r, out, open_stream rest)"
    by blast
  then show ?thesis
    unfolding flv_read_tag_header Let_def
    by (simp add: tag_types)
qed

lemma unat_size_minus_1: "(d :: u32) \<noteq> 0 \<Longrightarrow> unat (d - 1) = unat d - 1"
  by (simp add: unat_minus_one)

lemma word_of_nat_size_minus_1: "(d :: u32) \<noteq> 0 \<Longrightarrow> word_of_nat (unat d - Suc 0) = d - 1"
proof -
  assume "d \<noteq> 0"
  then have eq: "unat (d - 1) = unat d - Suc 0"
    by (simp add: unat_size_minus_1)
  have "word_of_nat (unat (d - 1)) = d - 1"
    by simp
  then show ?thesis
    unfolding eq .
qed

lemma read_video_tag_consumes:
  assumes size: "unat (data_size ft) = length payload"
    and avc: "payload \<noteq> [] \<Longrightarrow> unat (hd payload) mod 16 = 7 \<Longrightarrow>
               2 \<le> length payload \<and> (payload ! 1 = 1 \<longrightarrow> 9 \<le> length payload)"
    and returns: "read_video_tag u ft (open_stream (payload @ rest)) = Inr (r, s')"
  shows "pending s' = rest"
proof (cases payload)
  case Nil
  with size have "data_size ft = 0" by (simp add: unat_zero_size)
  with Nil returns show ?thesis by (auto simp: read_video_tag_def eof_open_stream)
next
  case (Cons b p)
  with size have nz: "data_size ft \<noteq> 0" by auto
  show ?thesis
  proof (cases "flv_get_bits b 0 4 = FLV_CODEC_ID_AVC")
    case False
    from size Cons returns show ?thesis
      by (auto simp: read_video_tag_raw [OF nz False])
  next
    case True
    with avc Cons have fit: "2 \<le> length payload" "payload ! 1 = 1 \<longrightarrow> 9 \<le> length payload"
      by (simp_all add: codec_is_avc)
    with Cons obtain q p' where p: "p = q # p'" by (cases p) auto
    let ?vt = "\<lparr>frame_type = flv_get_bits b 4 4, codec_id = FLV_CODEC_ID_AVC, video_data = None\<rparr>"
    from returns Cons p obtain avc' where
      inner: "read_avc_video_tag u ?vt ft (data_size ft - 1) (open_stream (q # p' @ rest)) = Inr (avc', s')"
      by (auto simp: read_video_tag_avc [OF nz True] word_of_nat_size_minus_1 [OF nz]
          split: sum.splits)
    have frame: "frame_type ?vt \<noteq> 5"
    proof
      assume "frame_type ?vt = 5"
      from read_avc_video_tag_frame_5 [OF this] inner show False by simp
    qed
    from size nz have size': "unat (data_size ft - 1) = length payload - 1"
      by (simp add: unat_size_minus_1)
    show ?thesis
    proof (cases "q = 1")
      case False
      from fit size' have "1 \<le> unat (data_size ft - 1)" by simp
      from read_avc_video_tag_other [OF frame False this, of u ft "p' @ rest"] inner size' Cons p
      show ?thesis by auto
    next
      case True
      with fit Cons p have "9 \<le> length payload" by simp
      with Cons p have "7 \<le> length p'" by simp
      from seven_bytes [OF this] obtain ca cb cc na nb nc nd p'' where
        p': "p' = ca # cb # cc # na # nb # nc # nd # p''" by blast
      from \<open>9 \<le> length payload\<close> size' have "8 \<le> unat (data_size ft - 1)" by simp
      from read_avc_video_tag_nalu [OF frame this, of u ft ca cb cc na nb nc nd "p'' @ rest"]
        inner size' Cons p p' True
      show ?thesis by auto
    qed
  qed
qed

lemma read_scriptdata_tag_payload:
  assumes size: "unat (data_size ft) = length payload"
    and some: "payload \<noteq> []"
  shows "read_scriptdata_tag ft (open_stream (payload @ rest)) =
     (case parse_scriptdata_string (cursor_of payload) of
          Inl e \<Rightarrow> Inl e
        | Inr (None, c1) \<Rightarrow> Inr (Some Scriptdata_tag, open_stream rest)
        | Inr (Some name_str, c1) \<Rightarrow>
            (case parse_scriptdata_ECMA_array_raw c1 of
               Inl e \<Rightarrow> Inl e
             | Inr (None, c2) \<Rightarrow> Inr (Some Scriptdata_tag, open_stream rest)
             | Inr (Some (value_type, value_num_of_items), c2) \<Rightarrow>
                 (case print_scriptdata_object c2 of
                    Inl e \<Rightarrow> Inl e
                  | Inr c3 \<Rightarrow>
                      if len c3 \<noteq> 0 then Inl AssertionFailed
                      else Inr (Some Scriptdata_tag, open_stream rest))))"
proof -
  from size some have nz: "data_size ft \<noteq> 0" by auto
  have "\<not> malloc_fails (unat (data_size ft))"
    using malloc_grants_data [of "data_size ft" 0] by simp
  with size have fr: "fread_malloc (unat (data_size ft)) (open_stream (payload @ rest))
      = Inr (length payload, payload, open_stream rest)"
    by (simp add: fread_malloc_def fread_def open_stream_def)
  show ?thesis
    unfolding read_scriptdata_tag_def fr using nz size by (simp add: cursor_of_def)
qed

lemma read_scriptdata_tag_consumes:
  assumes size: "unat (data_size ft) = length payload"
    and returns: "read_scriptdata_tag ft (open_stream (payload @ rest)) = Inr (r, s')"
  shows "pending s' = rest"
proof (cases "payload = []")
  case True
  with size have "data_size ft = 0" by (simp add: unat_zero_size)
  with True returns show ?thesis
    by (auto simp: read_scriptdata_tag_def eof_open_stream)
next
  case False
  note unfolded = read_scriptdata_tag_payload [OF size False, of rest]
  let ?s1 = "open_stream rest"
  show ?thesis
  proof (cases "parse_scriptdata_string (cursor_of payload)")
    case (Inl e)
    with returns unfolded show ?thesis by simp
  next
    case (Inr x)
    obtain name c1 where x: "x = (name, c1)" by (cases x)
    show ?thesis
    proof (cases name)
      case None
      with returns unfolded Inr x show ?thesis by (auto simp: eof_open_stream)
    next
      case (Some name_str)
      show ?thesis
      proof (cases "parse_scriptdata_ECMA_array_raw c1")
        case (Inl e)
        with returns unfolded Inr x Some show ?thesis by simp
      next
        case arr: (Inr y)
        obtain v c2 where y: "y = (v, c2)" by (cases y)
        show ?thesis
        proof (cases v)
          case None
          with returns unfolded Inr x Some arr y show ?thesis by (auto simp: eof_open_stream)
        next
          case (Some items)
          obtain value_type n where items: "items = (value_type, n)" by (cases items)
          show ?thesis
          proof (cases "print_scriptdata_object c2")
            case (Inl e)
            with returns unfolded Inr x \<open>name = Some name_str\<close> arr y Some items
            show ?thesis by simp
          next
            case obj: (Inr c3)
            with returns unfolded Inr x \<open>name = Some name_str\<close> arr y Some items
            show ?thesis by (auto simp: eof_open_stream split: if_splits)
          qed
        qed
      qed
    qed
  qed
qed

text \<open>
  C5, as stated, fails. An audio tag declares 3 payload bytes and the stream holds one:
  the decoder consumes that byte and the tag is returned. A script-data tag declares 7
  bytes of which the in-memory decoder uses 4 before the array header runs short: the tag
  is returned as well. Neither case is reported.
\<close>

theorem payload_size_mismatch_counterexample:
  "flv_read_tag 0 (open_stream [0, 0, 0, 0, 8, 0, 0, 3, 0, 0, 0, 0, 0, 0, 0, 0x2F])
     = Inr (Some \<lparr>tag_type = 8, data_size = 3, timestamp = 0, timestamp_ext = 0,
                   stream_id = 0,
                   tag_data = Some (Audio (Some \<lparr>sound_format = 2, sound_rate = 3,
                     sound_size = 1, sound_type = 1, audio_data = []\<rparr>))\<rparr>,
            \<lparr>pending = [], eof = True\<rparr>) \<and>
   flv_read_tag 0 (open_stream [0, 0, 0, 0, 18, 0, 0, 7, 0, 0, 0, 0, 0, 0, 0,
                                2, 0, 1, 0x61, 8, 0, 0, 0x77])
     = Inr (Some \<lparr>tag_type = 18, data_size = 7, timestamp = 0, timestamp_ext = 0,
                   stream_id = 0,
                   tag_data = Some (ScriptData (Some Scriptdata_tag))\<rparr>,
            open_stream [0x77])"
  by (simp add: flv_read_tag_def read_audio_tag_def read_scriptdata_tag_def
      parse_scriptdata_string_def parse_scriptdata_string_without_type_def
      parse_scriptdata_ECMA_array_raw_def advance_def c_string_def
      stream_eval tag_types scriptdata_types)

text \<open>
  C5, amended. Let the stream hold a complete header and the whole declared payload, and
  let the payload cover the fixed fields its decoder reads (two bytes for AAC audio and
  for AVC video, nine for an AVC NALU packet). Then every tag the parser returns has
  consumed the header and exactly the declared payload bytes, and for an audio tag the
  parser does return one. The one place where the bytes a decoder used are held against
  the declared size is the assertion \<open>value_length == 0\<close> of the script-data decoder:
  when the name and the array header of a script-data payload decode and the object loop
  returns, the tag is returned if the loop has brought the counter of the declared bytes
  down to 0, and the assertion stops the process otherwise. The early returns of the
  script-data decoder pass that assertion by, the audio and video decoders have no such
  test, and nothing yields a size-mismatch error value.
\<close>

theorem payload_consumption:
  assumes size: "length payload = unat da * 65536 + unat db * 256 + unat dc"
    and aac: "t = 8 \<Longrightarrow> payload \<noteq> [] \<Longrightarrow> unat (hd payload) div 16 = 10
               \<Longrightarrow> 2 \<le> length payload"
    and avc: "t = 9 \<Longrightarrow> payload \<noteq> [] \<Longrightarrow> unat (hd payload) mod 16 = 7
               \<Longrightarrow> 2 \<le> length payload \<and> (payload ! 1 = 1 \<longrightarrow> 9 \<le> length payload)"
  shows
   "(\<forall>tag s'. flv_read_tag u (open_stream (pa # pb # pc # pd # t # da # db # dc # ta # tb # tc
                          # e # sa # sb # sc # payload @ rest)) = Inr (Some tag, s') \<longrightarrow>
       pending s' = rest \<and> unat (data_size tag) = length payload) \<and>
    (t = 8 \<longrightarrow>
       (\<exists>tag s'. flv_read_tag u (open_stream (pa # pb # pc # pd # t # da # db # dc # ta # tb # tc
                          # e # sa # sb # sc # payload @ rest)) = Inr (Some tag, s'))) \<and>
    (t = 18 \<longrightarrow>
       (\<forall>name ca ty n cb cc.
          parse_scriptdata_string (cursor_of payload) = Inr (Some name, ca) \<and>
          parse_scriptdata_ECMA_array_raw ca = Inr (Some (ty, n), cb) \<and>
          print_scriptdata_object cb = Inr cc \<longrightarrow>
          (len cc \<noteq> 0 \<longrightarrow>
             flv_read_tag u (open_stream (pa # pb # pc # pd # t # da # db # dc # ta # tb # tc
                          # e # sa # sb # sc # payload @ rest)) = Inl AssertionFailed) \<and>
          (len cc = 0 \<longrightarrow>
             (\<exists>tag. flv_read_tag u (open_stream (pa # pb # pc # pd # t # da # db # dc # ta # tb # tc
                          # e # sa # sb # sc # payload @ rest)) = Inr (Some tag, open_stream rest)))))"
proof -
  let ?S = "open_stream (pa # pb # pc # pd # t # da # db # dc # ta # tb # tc
                          # e # sa # sb # sc # payload @ rest)"
  let ?hdr = "\<lparr>tag_type = t,
      data_size = push_bit 16 (ucast da) OR push_bit 8 (ucast db) OR ucast dc,
      timestamp = push_bit 16 (ucast ta) OR push_bit 8 (ucast tb) OR ucast tc,
      timestamp_ext = e,
      stream_id = push_bit 16 (ucast sa) OR push_bit 8 (ucast sb) OR ucast sc,
      tag_data = None\<rparr>"
  from size have declared: "unat (data_size ?hdr) = length payload"
    by (simp add: unat_be24)
  have consumed: "\<forall>tag s'. flv_read_tag u ?S = Inr (Some tag, s') \<longrightarrow>
       pending s' = rest \<and> unat (data_size tag) = length payload"
  proof (intro allI impI)
    fix tag s'
    assume returns: "flv_read_tag u ?S = Inr (Some tag, s')"
    from flv_read_tag_fields(2) [OF returns] size
    have "unat (data_size tag) = length payload"
      by (simp add: unat_be24)
    moreover have "pending s' = rest"
    proof -
      consider (audio) "t = 8" | (video) "t = 9" | (script) "t = 18"
        | (other) "t \<noteq> 8" "t \<noteq> 9" "t \<noteq> 18"
        by blast
      then show ?thesis
      proof cases
        case audio
        with aac have "payload \<noteq> [] \<Longrightarrow> unat (hd payload) div 16 = 10 \<Longrightarrow> 2 \<le> length payload"
          by simp
        from flv_read_tag_audio_payload [OF size this, of u pa pb pc pd ta tb tc e sa sb sc rest]
          returns audio
        show ?thesis
          by (auto simp: eof_open_stream)
      next
        case video
        with avc have fit: "payload \<noteq> [] \<Longrightarrow> unat (hd payload) mod 16 = 7 \<Longrightarrow>
            2 \<le> length payload \<and> (payload ! 1 = 1 \<longrightarrow> 9 \<le> length payload)"
          by simp
        from returns video obtain r where
          "read_video_tag u ?hdr (open_stream (payload @ rest)) = Inr (r, s')"
          unfolding flv_read_tag_header Let_def
          by (auto simp: tag_types split: sum.splits)
        from read_video_tag_consumes [OF declared fit this]
        show ?thesis by simp
      next
        case script
        from returns script obtain r where
          "read_scriptdata_tag ?hdr (open_stream (payload @ rest)) = Inr (r, s')"
          unfolding flv_read_tag_header Let_def
          by (auto simp: tag_types split: sum.splits)
        from read_scriptdata_tag_consumes [OF declared this]
        show ?thesis .
      next
        case other
        from unknown_tag_type_exits_aux [OF other] returns show ?thesis
          by simp
      qed
    qed
    ultimately show "pending s' = rest \<and> unat (data_size tag) = length payload"
      by simp
  qed
  have audio_returned: "t = 8 \<longrightarrow> (\<exists>tag s'. flv_read_tag u ?S = Inr (Some tag, s'))"
  proof
    assume audio: "t = 8"
    with aac have "payload \<noteq> [] \<Longrightarrow> unat (hd payload) div 16 = 10 \<Longrightarrow> 2 \<le> length payload"
      by simp
    from flv_read_tag_audio_payload [OF size this, of u pa pb pc pd ta tb tc e sa sb sc rest] audio
    show "\<exists>tag s'. flv_read_tag u ?S = Inr (Some tag, s')"
      by auto
  qed
  have asserted: "t = 18 \<longrightarrow>
       (\<forall>name ca ty n cb cc.
          parse_scriptdata_string (cursor_of payload) = Inr (Some name, ca) \<and>
          parse_scriptdata_ECMA_array_raw ca = Inr (Some (ty, n), cb) \<and>
          print_scriptdata_object cb = Inr cc \<longrightarrow>
          (len cc \<noteq> 0 \<longrightarrow> flv_read_tag u ?S = Inl AssertionFailed) \<and>
          (len cc = 0 \<longrightarrow> (\<exists>tag. flv_read_tag u ?S = Inr (Some tag, open_stream rest))))"
  proof (intro impI allI)
    fix name ca ty n cb cc
    assume script: "t = 18"
    assume parsed: "parse_scriptdata_string (cursor_of payload) = Inr (Some name, ca) \<and>
          parse_scriptdata_ECMA_array_raw ca = Inr (Some (ty, n), cb) \<and>
          print_scriptdata_object cb = Inr cc"
    have some: "payload \<noteq> []"
    proof
      assume "payload = []"
      with parsed show False
        by (simp add: parse_scriptdata_string_def cursor_of_def)
    qed
    from read_scriptdata_tag_payload [OF declared some, of rest] parsed
    have "read_scriptdata_tag ?hdr (open_stream (payload @ rest)) =
        (if len cc \<noteq> 0 then Inl AssertionFailed else Inr (Some Scriptdata_tag, open_stream rest))"
      by simp
    then show "(len cc \<noteq> 0 \<longrightarrow> flv_read_tag u ?S = Inl AssertionFailed) \<and>
          (len cc = 0 \<longrightarrow> (\<exists>tag. flv_read_tag u ?S = Inr (Some tag, open_stream rest)))"
      unfolding flv_read_tag_header Let_def using script
      by (simp add: tag_types)
  qed
  from consumed audio_returned asserted show ?thesis
    by (intro conjI)
qed

theorem payload_consumption_witness:
  "flv_read_tag 0 (open_stream [0, 0, 0, 0, 8, 0, 0, 4, 0, 0, 0, 0, 0, 0, 0,
                                0xAF, 0, 0x12, 0x10, 0x99])
     = Inr (Some \<lparr>tag_type = 8, data_size = 4, timestamp = 0, timestamp_ext = 0,
                   stream_id = 0,
                   tag_data = Some (Audio (Some \<lparr>sound_format = 10, sound_rate = 3,
                     sound_size = 1, sound_type = 1, audio_data = [0x12, 0x10]\<rparr>))\<rparr>,
            open_stream [0x99]) \<and>
   flv_read_tag 0 (open_stream [0, 0, 0, 0, 9, 0, 0, 10, 0, 0, 0, 0, 0, 0, 0,
                                0x17, 1, 0, 0, 0, 0, 0, 0, 1, 0x65, 0x77])
     = Inr (Some \<lparr>tag_type = 9, data_size = 10, timestamp = 0, timestamp_ext = 0,
                   stream_id = 0,
                   tag_data = Some (Video (Some \<lparr>frame_type = 1, codec_id = 7,
                     video_data = Some (AVC \<lparr>avc_packet_type = 1, composition_time = 0,
                        nalu_len = 1, avc_data = [0x65]\<rparr>)\<rparr>))\<rparr>,
            open_stream [0x77]) \<and>
   flv_read_tag 0 (open_stream [0, 0, 0, 0, 18, 0, 0, 12, 0, 0, 0, 0, 0, 0, 0,
                                2, 0, 1, 0x61, 8, 0, 0, 0, 0, 0, 0, 9, 0x55])
     = Inr (Some \<lparr>tag_type = 18, data_size = 12, timestamp = 0, timestamp_ext = 0,
                   stream_id = 0,
                   tag_data = Some (ScriptData (Some Scriptdata_tag))\<rparr>,
            open_stream [0x55]) \<and>
   flv_read_tag 0 (open_stream [0, 0, 0, 0, 18, 0, 0, 13, 0, 0, 0, 0, 0, 0, 0,
                                2, 0, 1, 0x61, 8, 0, 0, 0, 0, 0, 0, 9, 0x77, 0x55])
     = Inl AssertionFailed"
proof -
  let ?A = "open_stream [0, 0, 0, 0, 8, 0, 0, 4, 0, 0, 0, 0, 0, 0, 0, 0xAF, 0, 0x12, 0x10, 0x99]"
  let ?V = "open_stream [0, 0, 0, 0, 9, 0, 0, 10, 0, 0, 0, 0, 0, 0, 0,
                         0x17, 1, 0, 0, 0, 0, 0, 0, 1, 0x65, 0x77]"
  let ?S = "open_stream [0, 0, 0, 0, 18, 0, 0, 12, 0, 0, 0, 0, 0, 0, 0,
                         2, 0, 1, 0x61, 8, 0, 0, 0, 0, 0, 0, 9, 0x55]"
  have size_a: "length [0xAF, 0, 0x12, 0x10 :: u8] = unat (0 :: u8) * 65536 + unat (0 :: u8) * 256 + unat (4 :: u8)"
    and size_v: "length [0x17, 1, 0, 0, 0, 0, 0, 0, 1, 0x65 :: u8]
        = unat (0 :: u8) * 65536 + unat (0 :: u8) * 256 + unat (10 :: u8)"
    and size_s: "length [2, 0, 1, 0x61, 8, 0, 0, 0, 0, 0, 0, 9 :: u8]
        = unat (0 :: u8) * 65536 + unat (0 :: u8) * 256 + unat (12 :: u8)"
    and size_x: "length [2, 0, 1, 0x61, 8, 0, 0, 0, 0, 0, 0, 9, 0x77 :: u8]
        = unat (0 :: u8) * 65536 + unat (0 :: u8) * 256 + unat (13 :: u8)"
    by simp_all
  have fit_a: "2 \<le> length [0xAF, 0, 0x12, 0x10 :: u8]"
    and fit_a': "2 \<le> length [0xAF, 0, 0x12, 0x10 :: u8] \<and>
        ([0xAF, 0, 0x12, 0x10 :: u8] ! 1 = 1 \<longrightarrow> 9 \<le> length [0xAF, 0, 0x12, 0x10 :: u8])"
    by simp_all
  have fit_v: "2 \<le> length [0x17, 1, 0, 0, 0, 0, 0, 0, 1, 0x65 :: u8] \<and>
        ([0x17, 1, 0, 0, 0, 0, 0, 0, 1, 0x65 :: u8] ! 1 = 1 \<longrightarrow>
           9 \<le> length [0x17, 1, 0, 0, 0, 0, 0, 0, 1, 0x65 :: u8])"
    and fit_v': "2 \<le> length [0x17, 1, 0, 0, 0, 0, 0, 0, 1, 0x65 :: u8]"
    by simp_all
  have fit_s: "2 \<le> length [2, 0, 1, 0x61, 8, 0, 0, 0, 0, 0, 0, 9 :: u8]"
    and fit_s': "2 \<le> length [2, 0, 1, 0x61, 8, 0, 0, 0, 0, 0, 0, 9 :: u8] \<and>
        ([2, 0, 1, 0x61, 8, 0, 0, 0, 0, 0, 0, 9 :: u8] ! 1 = 1 \<longrightarrow>
           9 \<le> length [2, 0, 1, 0x61, 8, 0, 0, 0, 0, 0, 0, 9 :: u8])"
    by simp_all
  have fit_x: "2 \<le> length [2, 0, 1, 0x61, 8, 0, 0, 0, 0, 0, 0, 9, 0x77 :: u8]"
    and fit_x': "2 \<le> length [2, 0, 1, 0x61, 8, 0, 0, 0, 0, 0, 0, 9, 0x77 :: u8] \<and>
        ([2, 0, 1, 0x61, 8, 0, 0, 0, 0, 0, 0, 9, 0x77 :: u8] ! 1 = 1 \<longrightarrow>
           9 \<le> length [2, 0, 1, 0x61, 8, 0, 0, 0, 0, 0, 0, 9, 0x77 :: u8])"
    by simp_all
  have audio: "flv_read_tag 0 ?A
     = Inr (Some \<lparr>tag_type = 8, data_size = 4, timestamp = 0, timestamp_ext = 0,
                   stream_id = 0,
                   tag_data = Some (Audio (Some \<lparr>sound_format = 10, sound_rate = 3,
                     sound_size = 1, sound_type = 1, audio_data = [0x12, 0x10]\<rparr>))\<rparr>,
            open_stream [0x99])"
    by (simp add: flv_read_tag_def read_audio_tag_def stream_eval tag_types)
  have video: "flv_read_tag 0 ?V
     = Inr (Some \<lparr>tag_type = 9, data_size = 10, timestamp = 0, timestamp_ext = 0,
                   stream_id = 0,
                   tag_data = Some (Video (Some \<lparr>frame_type = 1, codec_id = 7,
                     video_data = Some (AVC \<lparr>avc_packet_type = 1, composition_time = 0,
                        nalu_len = 1, avc_data = [0x65]\<rparr>)\<rparr>))\<rparr>,
            open_stream [0x77])"
    by (simp add: flv_read_tag_def read_video_tag_def read_avc_video_tag_def
        stream_eval tag_types FLV_CODEC_ID_AVC_def)
  have script: "flv_read_tag 0 ?S
     = Inr (Some \<lparr>tag_type = 18, data_size = 12, timestamp = 0, timestamp_ext = 0,
                   stream_id = 0,
                   tag_data = Some (ScriptData (Some Scriptdata_tag))\<rparr>,
            open_stream [0x55])"
    by (simp add: flv_read_tag_def read_scriptdata_tag_def
        parse_scriptdata_string_def parse_scriptdata_string_without_type_def
        parse_scriptdata_ECMA_array_raw_def advance_def c_string_def
        print_scriptdata_object.simps stream_eval tag_types scriptdata_types)
  have name: "parse_scriptdata_string (cursor_of [2, 0, 1, 0x61, 8, 0, 0, 0, 0, 0, 0, 9, 0x77])
      = Inr (Some [0x61], cursor_of [8, 0, 0, 0, 0, 0, 0, 9, 0x77])"
    by (simp add: parse_scriptdata_string_def parse_scriptdata_string_without_type_def
        advance_def c_string_def cursor_of_def scriptdata_types)
  have header: "parse_scriptdata_ECMA_array_raw (cursor_of [8, 0, 0, 0, 0, 0, 0, 9, 0x77])
      = Inr (Some (8, 0), cursor_of [0, 0, 9, 0x77])"
    by (simp add: parse_scriptdata_ECMA_array_raw_def advance_def cursor_of_def scriptdata_types)
  have body: "print_scriptdata_object (cursor_of [0, 0, 9, 0x77]) = Inr (cursor_of [0x77])"
    by (simp add: print_scriptdata_object.simps parse_scriptdata_string_without_type_def
        advance_def c_string_def cursor_of_def scriptdata_types)
  have left: "len (cursor_of [0x77 :: u8]) \<noteq> 0"
    by (simp add: cursor_of_def)
  have "pending (open_stream [0x99 :: u8]) = [0x99]"
    using audio payload_consumption [where payload = "[0xAF, 0, 0x12, 0x10]" and rest = "[0x99]"
      and t = 8 and da = 0 and db = 0 and dc = 4 and u = 0 and pa = 0 and pb = 0 and pc = 0
      and pd = 0 and ta = 0 and tb = 0 and tc = 0 and e = 0 and sa = 0 and sb = 0 and sc = 0,
      OF size_a fit_a fit_a']
    by simp
  moreover have "pending (open_stream [0x77 :: u8]) = [0x77]"
    using video payload_consumption [where payload = "[0x17, 1, 0, 0, 0, 0, 0, 0, 1, 0x65]"
      and rest = "[0x77]"
      and t = 9 and da = 0 and db = 0 and dc = 10 and u = 0 and pa = 0 and pb = 0 and pc = 0
      and pd = 0 and ta = 0 and tb = 0 and tc = 0 and e = 0 and sa = 0 and sb = 0 and sc = 0,
      OF size_v fit_v' fit_v]
    by simp
  moreover have "pending (open_stream [0x55 :: u8]) = [0x55]"
    using script payload_consumption [where payload = "[2, 0, 1, 0x61, 8, 0, 0, 0, 0, 0, 0, 9]"
      and rest = "[0x55]"
      and t = 18 and da = 0 and db = 0 and dc = 12 and u = 0 and pa = 0 and pb = 0 and pc = 0
      and pd = 0 and ta = 0 and tb = 0 and tc = 0 and e = 0 and sa = 0 and sb = 0 and sc = 0,
      OF size_s fit_s fit_s']
    by simp
  moreover have "flv_read_tag 0 (open_stream [0, 0, 0, 0, 18, 0, 0, 13, 0, 0, 0, 0, 0, 0, 0,
                                2, 0, 1, 0x61, 8, 0, 0, 0, 0, 0, 0, 9, 0x77, 0x55])
     = Inl AssertionFailed"
    using payload_consumption [where payload = "[2, 0, 1, 0x61, 8, 0, 0, 0, 0, 0, 0, 9, 0x77]"
      and rest = "[0x55]"
      and t = 18 and da = 0 and db = 0 and dc = 13 and u = 0 and pa = 0 and pb = 0 and pc = 0
      and pd = 0 and ta = 0 and tb = 0 and tc = 0 and e = 0 and sa = 0 and sb = 0 and sc = 0,
      OF size_x fit_x fit_x', THEN conjunct2, THEN conjunct2, rule_format,
      OF refl conjI [OF name conjI [OF header body]], THEN conjunct1, rule_format, OF left]
    by simp
  ultimately show ?thesis
    using audio video script by simp
qed

subsection \<open>Script-data values in memory\<close>

lemma cursor_of_simps: "data (cursor_of bs) = bs" "len (cursor_of bs) = length bs"
  by (simp_all add: cursor_of_def)

lemma advance_cursor_of: "advance k (cursor_of bs) = cursor_of (drop k bs)"
  by (simp add: advance_def cursor_of_def)



lemma be32_plus_sum:
  "(push_bit 24 (ucast a) + push_bit 16 (ucast b) + push_bit 8 (ucast c) + ucast d :: u32)
     = word_of_nat (unat (a :: u8) * 16777216 + unat (b :: u8) * 65536
         + unat (c :: u8) * 256 + unat (d :: u8))"
  by (simp add: push_bit_eq_mult)

lemma unat_be32_plus:
  "unat (push_bit 24 (ucast a) + push_bit 16 (ucast b) + push_bit 8 (ucast c) + ucast d :: u32)
     = unat (a :: u8) * 16777216 + unat (b :: u8) * 65536 + unat (c :: u8) * 256 + unat (d :: u8)"
  unfolding be32_plus_sum unat_of_nat
  using byte_bound [of a] byte_bound [of b] byte_bound [of c] byte_bound [of d]
  by simp


lemma parse_number_item:
  assumes "length v = 8"
  shows "parse_scriptdata_number (cursor_of (0 # v @ after)) = Inr (hex2double v, cursor_of after)"
proof -
  from assms have "hex2double (v @ after) = hex2double v"
    by (simp add: hex2double_def nth_append)
  with assms show ?thesis
    by (simp add: parse_scriptdata_number_def Let_def cursor_of_simps advance_cursor_of
        SCRIPTDATA_NUMBER_def)
qed

lemma parse_number_wrong_type:
  assumes "t \<noteq> 0"
  shows "parse_scriptdata_number (cursor_of (t # after)) = Inl AssertionFailed"
  using assms
  by (simp add: parse_scriptdata_number_def cursor_of_simps SCRIPTDATA_NUMBER_def)

lemma strict_array_items_numbers:
  assumes "\<forall>v \<in> set items. length v = 8"
  shows "strict_array_items (length items) (cursor_of (concat (map (\<lambda>v. 0 # v) items) @ rest))
           = Inr (cursor_of rest)"
  using assms
  by (induction items) (simp_all add: parse_number_item)

lemma strict_array_items_wrong_type:
  assumes "\<forall>v \<in> set items. length v = 8" "length items < n" "t \<noteq> 0"
  shows "strict_array_items n (cursor_of (concat (map (\<lambda>v. 0 # v) items) @ t # rest))
           = Inl AssertionFailed"
  using assms
proof (induction items arbitrary: n)
  case Nil
  then obtain m where "n = Suc m" by (cases n) auto
  with Nil show ?case by (simp add: parse_number_wrong_type)
next
  case (Cons v items)
  then obtain m where n: "n = Suc m" by (cases n) auto
  with Cons.prems have "length items < m" by simp
  with Cons n show ?case by (simp add: parse_number_item)
qed

text \<open>
  C3, as stated, fails: a strict array of one Number takes 14 bytes, not 13. Each item
  is a typed value, a type byte 0 and eight bytes.
\<close>

theorem strict_array_size_counterexample:
  "parse_scriptdata_strict_array
      (cursor_of [10, 0, 0, 0, 1, 0, 1, 2, 3, 4, 5, 6, 7, 8, 0xAA]) = Inr (1, cursor_of [0xAA]) \<and>
   len (cursor_of [10, 0, 0, 0, 1, 0, 1, 2, 3, 4, 5, 6, 7, 8, 0xAA :: u8]) - len (cursor_of [0xAA :: u8])
     = 14 \<and>
   spec_strict_array_size 1 = 13"
  by (simp add: parse_scriptdata_strict_array_def parse_scriptdata_number_def advance_def
      cursor_of_def scriptdata_types spec_strict_array_size_def)

lemma parse_scriptdata_strict_array_header:
  "parse_scriptdata_strict_array (cursor_of (10 # na # nb # nc # nd # body)) =
     (case strict_array_items (unat na * 16777216 + unat nb * 65536 + unat nc * 256 + unat nd)
             (cursor_of body) of
        Inl e \<Rightarrow> Inl e
      | Inr d' \<Rightarrow>
          Inr (push_bit 24 (ucast na) + push_bit 16 (ucast nb) + push_bit 8 (ucast nc) + ucast nd,
               d'))"
  by (simp add: parse_scriptdata_strict_array_def Let_def cursor_of_simps advance_cursor_of
      unat_be32_plus SCRIPTDATA_STRICT_ARRAY_def)

text \<open>
  C3, amended. A strict array whose declared count \<open>N\<close> of items are all Numbers, each a
  type byte 0 and eight bytes, is decoded to the count with the cursor after the last
  item: it takes \<open>1 + 4 + 9 * N\<close> bytes. When fewer than \<open>N\<close> Numbers are followed by a
  byte that is not the Number type, the decode stops in the failed assertion of the
  Number decoder.
\<close>

theorem strict_array_numbers:
  assumes items: "\<forall>v \<in> set items. length v = 8"
  shows
   "(length items = unat na * 16777216 + unat nb * 65536 + unat nc * 256 + unat nd \<longrightarrow>
      (\<exists>n. parse_scriptdata_strict_array
              (cursor_of (10 # na # nb # nc # nd # concat (map (\<lambda>v. 0 # v) items) @ rest))
            = Inr (n, cursor_of rest) \<and>
           unat n = length items) \<and>
      length (10 # na # nb # nc # nd # concat (map (\<lambda>v. 0 # v) items) @ rest)
        = 1 + 4 + 9 * length items + length rest) \<and>
    (length items < unat na * 16777216 + unat nb * 65536 + unat nc * 256 + unat nd \<and> t \<noteq> 0 \<longrightarrow>
      parse_scriptdata_strict_array
         (cursor_of (10 # na # nb # nc # nd # concat (map (\<lambda>v. 0 # v) items) @ t # rest))
       = Inl AssertionFailed)"
proof (intro conjI impI)
  assume count: "length items = unat na * 16777216 + unat nb * 65536 + unat nc * 256 + unat nd"
  from strict_array_items_numbers [OF items, of rest] count
  show "\<exists>n. parse_scriptdata_strict_array
              (cursor_of (10 # na # nb # nc # nd # concat (map (\<lambda>v. 0 # v) items) @ rest))
            = Inr (n, cursor_of rest) \<and>
           unat n = length items"
    by (simp add: parse_scriptdata_strict_array_header unat_be32_plus)
next
  from items have "length (concat (map (\<lambda>v. 0 # v) items)) = 9 * length items"
    by (induction items) simp_all
  then show "length (10 # na # nb # nc # nd # concat (map (\<lambda>v. 0 # v) items) @ rest)
        = 1 + 4 + 9 * length items + length rest"
    by simp
next
  assume "length items < unat na * 16777216 + unat nb * 65536 + unat nc * 256 + unat nd \<and> t \<noteq> 0"
  then have "length items < unat na * 16777216 + unat nb * 65536 + unat nc * 256 + unat nd"
    and "t \<noteq> 0" by simp_all
  from strict_array_items_wrong_type [OF items this, of rest]
  show "parse_scriptdata_strict_array
         (cursor_of (10 # na # nb # nc # nd # concat (map (\<lambda>v. 0 # v) items) @ t # rest))
       = Inl AssertionFailed"
    by (simp add: parse_scriptdata_strict_array_header)
qed

theorem strict_array_numbers_witness:
  "parse_scriptdata_strict_array
      (cursor_of [10, 0, 0, 0, 2, 0, 1, 2, 3, 4, 5, 6, 7, 8, 0, 8, 7, 6, 5, 4, 3, 2, 1, 0xAA])
     = Inr (2, cursor_of [0xAA]) \<and>
   parse_scriptdata_strict_array
      (cursor_of [10, 0, 0, 0, 2, 0, 1, 2, 3, 4, 5, 6, 7, 8, 1, 1, 0xAA])
     = Inl AssertionFailed"
proof -
  have items: "\<forall>v \<in> set [[1, 2, 3, 4, 5, 6, 7, 8], [8, 7, 6, 5, 4, 3, 2, 1 :: u8]]. length v = 8"
    and item: "\<forall>v \<in> set [[1, 2, 3, 4, 5, 6, 7, 8 :: u8]]. length v = 8"
    by simp_all
  from strict_array_numbers [OF items, where na = 0 and nb = 0 and nc = 0 and nd = 2
      and rest = "[0xAA]" and t = 1]
    strict_array_numbers [OF item, where na = 0 and nb = 0 and nc = 0 and nd = 2
      and rest = "[1, 0xAA]" and t = 1]
  show ?thesis
    by (auto simp: word_unat_eq_iff)
qed

subsection \<open>The object body loop\<close>









end
